(* ===== verification/Prelude.thy ===== *)
theory Prelude
  imports Complex_Main "HOL-Library.Sublist"
begin

text \<open>
  Shared vocabulary of the development: the types that name the monitor's data
  (timestamps, fingerprints, the alert dictionary), the Python string and list
  primitives that \<open>src/eks.py\<close> calls (\<open>str.lower\<close>, the \<open>in\<close> operator on
  strings, \<open>str.join\<close>, the slice \<open>xs[-n:]\<close>, \<open>dict.get\<close>), and the generic
  lemmas about them that the component theories use.

  A Python \<open>str\<close> is modelled as an Isabelle \<open>string\<close>: a list of \<open>char\<close>, that is
  of code points 0 to 255 (Latin-1). Code points above 255 are not representable;
  the header of \<open>Spec2Isabelle\<close> says what this leaves out.
\<close>

named_theorems py_simps "evaluation rules of the modelled Python primitives"

type_synonym timestamp = real
  \<comment> \<open>the float returned by \<open>time.time()\<close>, read as an exact real\<close>
type_synonym fingerprint = string
  \<comment> \<open>a key of the global dictionary \<open>sent_alerts\<close>\<close>

subsection \<open>\<open>str.lower\<close>\<close>

text \<open>
  CPython lowers, within Latin-1, the ASCII capitals \<open>A\<close>..\<open>Z\<close> and the capitals
  \<open>\\xc0\<close>..\<open>\\xde\<close> except the multiplication sign \<open>\\xd7\<close>, each by adding 32
  to the code point; every other code point below 256 is its own lower case.
\<close>

definition py_upper_code :: "nat \<Rightarrow> bool" where
  "py_upper_code n \<longleftrightarrow> (65 \<le> n \<and> n \<le> 90) \<or> (192 \<le> n \<and> n \<le> 222 \<and> n \<noteq> 215)"

definition py_lower_char :: "char \<Rightarrow> char" where
  "py_lower_char c = (if py_upper_code (of_char c) then char_of (of_char c + (32::nat)) else c)"

definition py_lower :: "string \<Rightarrow> string" where
  "py_lower s = map py_lower_char s"

subsection \<open>Substring test: Python's \<open>needle in hay\<close>\<close>

fun starts_with :: "string \<Rightarrow> string \<Rightarrow> bool" where
  "starts_with [] _ = True"
| "starts_with (_ # _) [] = False"
| "starts_with (a # as) (b # bs) = (a = b \<and> starts_with as bs)"

fun py_in :: "string \<Rightarrow> string \<Rightarrow> bool" where
  "py_in needle [] = (needle = [])"
| "py_in needle (c # cs) = (starts_with needle (c # cs) \<or> py_in needle cs)"

subsection \<open>\<open>sep.join(xs)\<close> and the slice \<open>xs[-n:]\<close>\<close>

fun py_join :: "string \<Rightarrow> string list \<Rightarrow> string" where
  "py_join sep [] = []"
| "py_join sep [x] = x"
| "py_join sep (x # y # zs) = x @ sep @ py_join sep (y # zs)"

definition py_tail :: "nat \<Rightarrow> 'a list \<Rightarrow> 'a list" where
  \<comment> \<open>\<open>xs[-n:]\<close> for \<open>n > 0\<close>: the last \<open>n\<close> elements, or all of them\<close>
  "py_tail n xs = drop (length xs - n) xs"

subsection \<open>\<open>dict.get(k, default)\<close> on a JSON object\<close>

text \<open>A JSON object of string values, as \<open>json.loads\<close> gives it, is an association
  list; \<open>d.get(k, default)\<close> looks the key up and falls back to the default.\<close>

type_synonym json_obj = "(string \<times> string) list"

definition py_dict_get :: "json_obj \<Rightarrow> string \<Rightarrow> string \<Rightarrow> string" where
  "py_dict_get d k dflt = (case map_of d k of None \<Rightarrow> dflt | Some v \<Rightarrow> v)"

subsection \<open>\<open>str.strip\<close>\<close>

text \<open>\<open>str.isspace\<close> within Latin-1: \<open>\\t\<close>..\<open>\\r\<close>, \<open>\\x1c\<close>..\<open>\\x1f\<close>,
  the space, \<open>\\x85\<close> and the no-break space \<open>\\xa0\<close>.\<close>

definition py_isspace :: "char \<Rightarrow> bool" where
  "py_isspace c \<longleftrightarrow> of_char c \<in> {9, 10, 11, 12, 13, 28, 29, 30, 31, 32, 133, 160::nat}"

definition py_strip :: "string \<Rightarrow> string" where
  "py_strip s = rev (dropWhile py_isspace (rev (dropWhile py_isspace s)))"

subsection \<open>Generic lemmas\<close>

lemma starts_with_prefix [simp]: "starts_with xs ys \<longleftrightarrow> prefix xs ys"
  by (induction xs ys rule: starts_with.induct) auto

lemma py_in_sublist: "py_in n h \<longleftrightarrow> sublist n h"
  by (induction h) (auto simp: sublist_Cons_right)

lemma eq_char_of_iff: "c = char_of (n::nat) \<longleftrightarrow> take_bit 8 n = of_char c"
  by (metis char_of_eq_iff)

lemmas [py_simps] = char_of_eq_iff eq_char_of_iff py_lower_def py_lower_char_def py_upper_code_def

lemma of_char_py_lower_char:
  "(of_char (py_lower_char c) :: nat) =
     (if py_upper_code (of_char c) then of_char c + 32 else of_char c)"
  by (auto simp: py_lower_char_def py_upper_code_def)

lemma py_lower_append [simp]: "py_lower (xs @ ys) = py_lower xs @ py_lower ys"
  by (simp add: py_lower_def)

lemma py_lower_Cons [simp]: "py_lower (c # cs) = py_lower_char c # py_lower cs"
  by (simp add: py_lower_def)

lemma py_lower_Nil [simp]: "py_lower [] = []"
  by (simp add: py_lower_def)

lemma length_py_tail [simp]: "length (py_tail n xs) = min n (length xs)"
  by (simp add: py_tail_def)

lemma py_tail_suffix: "suffix (py_tail n xs) xs"
  by (simp add: py_tail_def suffix_drop)

lemma py_tail_all: "length xs \<le> n \<Longrightarrow> py_tail n xs = xs"
  by (simp add: py_tail_def)

lemma py_tail_append_long: "n \<le> length ys \<Longrightarrow> py_tail n (xs @ ys) = py_tail n ys"
  by (simp add: py_tail_def)

lemma set_py_tail: "set (py_tail n xs) \<subseteq> set xs"
  by (simp add: py_tail_def set_drop_subset)

lemma py_tail_Nil_iff [simp]: "py_tail n xs = [] \<longleftrightarrow> xs = [] \<or> n = 0"
proof -
  have "length xs \<le> length xs - n \<longleftrightarrow> length xs = 0 \<or> n = 0" by arith
  then show ?thesis by (simp add: py_tail_def)
qed

lemma py_join_Nil_iff: "py_join sep xs = [] \<longleftrightarrow> (\<forall>x \<in> set xs. x = []) \<and> (sep = [] \<or> length xs \<le> 1)"
  by (induction sep xs rule: py_join.induct) auto

lemma set_py_join:
  "set (py_join sep xs) \<subseteq> \<Union> (set ` set xs) \<union> set sep"
  by (induction sep xs rule: py_join.induct) auto

lemma py_strip_Nil_iff: "py_strip s = [] \<longleftrightarrow> (\<forall>c \<in> set s. py_isspace c)"
  by (induction s) (auto simp: py_strip_def)

lemma py_isspace_lower_fixed: "py_isspace c \<Longrightarrow> py_lower_char c = c"
  by (auto simp: py_isspace_def py_lower_char_def py_upper_code_def)

lemma sublist_map_mono: "sublist xs ys \<Longrightarrow> sublist (map f xs) (map f ys)"
  unfolding sublist_def by (metis map_append)

lemma set_py_join_member: "x \<in> set xs \<Longrightarrow> c \<in> set x \<Longrightarrow> c \<in> set (py_join sep xs)"
  by (induction sep xs rule: py_join.induct) auto

end
