(* ===== verification/LogExcerpt.thy ===== *)
theory LogExcerpt
  imports Prelude
begin

text \<open>
  The log excerpt extractor of \<open>src/eks.py\<close>: \<open>str.splitlines\<close>, the per-line
  predicate of \<open>extract_relevant_logs\<close> (lines 42--45), the whole-log test
  \<open>has_error\<close> of \<open>dashboard_data\<close> (line 155) and the \<open>strip()\<close> guard of
  \<open>analyze_logs\<close> (line 52).
\<close>

subsection \<open>\<open>str.splitlines\<close>\<close>

text \<open>
  Within Latin-1 the line boundaries of \<open>str.splitlines\<close> are \<open>\\n\<close>, \<open>\\r\<close>,
  \<open>\\r\\n\<close> (one boundary), \<open>\\x0b\<close>, \<open>\\x0c\<close>, \<open>\\x1c\<close>, \<open>\\x1d\<close>,
  \<open>\\x1e\<close> and \<open>\\x85\<close>. A final boundary does not open an empty last line.
  \<open>splitlines_acc cur s\<close> holds the current line reversed in \<open>cur\<close>.
\<close>

definition is_line_break :: "char \<Rightarrow> bool" where
  "is_line_break c \<longleftrightarrow> of_char c \<in> {10, 11, 12, 13, 28, 29, 30, 133::nat}"

fun splitlines_acc :: "string \<Rightarrow> string \<Rightarrow> string list" where
  "splitlines_acc cur [] = (if cur = [] then [] else [rev cur])"
| "splitlines_acc cur (c # cs) =
     (if c = CHR 0x0D \<and> cs \<noteq> [] \<and> hd cs = CHR 0x0A then rev cur # splitlines_acc [] (tl cs)
      else if is_line_break c then rev cur # splitlines_acc [] cs
      else splitlines_acc (c # cur) cs)"

definition splitlines :: "string \<Rightarrow> string list" where
  "splitlines s = splitlines_acc [] s"

subsection \<open>The relevance predicate and the excerpt\<close>

definition is_relevant :: "string \<Rightarrow> bool" where
  \<comment> \<open>\<open>"error" in line.lower() or "exception" in line.lower()\<close>\<close>
  "is_relevant line \<longleftrightarrow> py_in ''error'' (py_lower line) \<or> py_in ''exception'' (py_lower line)"

definition relevant_lines :: "string \<Rightarrow> string list" where
  \<comment> \<open>\<open>filtered[-100:]\<close>\<close>
  "relevant_lines logs = py_tail 100 (filter is_relevant (splitlines logs))"

definition extract_relevant_logs :: "string \<Rightarrow> string" where
  "extract_relevant_logs logs = py_join [CHR 0x0A] (relevant_lines logs)"

definition has_error :: "string \<Rightarrow> bool" where
  \<comment> \<open>line 155: the test on the whole log, not line by line\<close>
  "has_error logs \<longleftrightarrow> py_in ''error'' (py_lower logs) \<or> py_in ''exception'' (py_lower logs)"

definition plain_line :: "string \<Rightarrow> bool" where
  \<comment> \<open>a line \<open>splitlines\<close> gives back unchanged: non-empty and free of boundaries\<close>
  "plain_line l \<longleftrightarrow> l \<noteq> [] \<and> (\<forall>x \<in> set l. \<not> is_line_break x)"

subsection \<open>Lines and line breaks\<close>

lemma is_line_break_py_lower_char [simp]: "is_line_break (py_lower_char c) \<longleftrightarrow> is_line_break c"
  unfolding is_line_break_def of_char_py_lower_char py_upper_code_def by auto

lemma py_lower_char_eq_break:
  assumes "is_line_break d"
  shows "py_lower_char c = d \<longleftrightarrow> c = d"
proof -
  have "(of_char (py_lower_char c) :: nat) = of_char d \<longleftrightarrow> (of_char c :: nat) = of_char d"
    using assms unfolding is_line_break_def of_char_py_lower_char py_upper_code_def by auto
  then show ?thesis by simp
qed

lemma py_lower_char_eq_CR [simp]: "py_lower_char c = CHR 0x0D \<longleftrightarrow> c = CHR 0x0D"
  by (rule py_lower_char_eq_break) (simp add: is_line_break_def)

lemma py_lower_char_eq_LF [simp]: "py_lower_char c = CHR 0x0A \<longleftrightarrow> c = CHR 0x0A"
  by (rule py_lower_char_eq_break) (simp add: is_line_break_def)

lemma splitlines_acc_py_lower:
  "splitlines_acc (py_lower cur) (py_lower s) = map py_lower (splitlines_acc cur s)"
proof (induction cur s rule: splitlines_acc.induct)
  case (1 cur)
  then show ?case by (simp add: py_lower_def rev_map)
next
  case (2 cur c cs)
  then show ?case
    by (cases cs) (auto simp: py_lower_def rev_map)
qed

lemma splitlines_acc_Cons_cases:
  assumes "l \<in> set (splitlines_acc cur (c # cs))"
  obtains (crlf) cs' where "c = CHR 0x0D" "cs = CHR 0x0A # cs'" "l = rev cur \<or> l \<in> set (splitlines_acc [] cs')"
  | (brk) "\<not> (c = CHR 0x0D \<and> cs \<noteq> [] \<and> hd cs = CHR 0x0A)" "is_line_break c" "l = rev cur \<or> l \<in> set (splitlines_acc [] cs)"
  | (plain) "\<not> (c = CHR 0x0D \<and> cs \<noteq> [] \<and> hd cs = CHR 0x0A)" "\<not> is_line_break c" "l \<in> set (splitlines_acc (c # cur) cs)"
proof (cases "c = CHR 0x0D \<and> cs \<noteq> [] \<and> hd cs = CHR 0x0A")
  case True
  then obtain cs' where "cs = CHR 0x0A # cs'" by (cases cs) auto
  with True assms show ?thesis using crlf by simp
next
  case False
  with assms show ?thesis using brk plain by (cases "is_line_break c") simp_all
qed

lemma sublist_append_left_mono: "sublist l ys \<Longrightarrow> sublist l (xs @ ys)"
  using sublist_order.order.trans sublist_append_leftI by blast

lemma splitlines_acc_sublist:
  "l \<in> set (splitlines_acc cur s) \<Longrightarrow> sublist l (rev cur @ s)"
proof (induction cur s arbitrary: l rule: splitlines_acc.induct)
  case (1 cur)
  then show ?case by (simp split: if_splits)
next
  case (2 cur c cs)
  from "2.prems" show ?case
  proof (cases rule: splitlines_acc_Cons_cases)
    case (crlf cs')
    then have g: "c = CHR 0x0D \<and> cs \<noteq> [] \<and> hd cs = CHR 0x0A" and t: "tl cs = cs'" by simp_all
    from crlf(3) show ?thesis
    proof
      assume "l = rev cur" then show ?thesis by simp
    next
      assume "l \<in> set (splitlines_acc [] cs')"
      with "2.IH"(1) [OF g] t have "sublist l cs'" by simp
      then have "sublist l ((rev cur @ [c, CHR 0x0A]) @ cs')" by (rule sublist_append_left_mono)
      with crlf show ?thesis by simp
    qed
  next
    case brk
    from brk(3) show ?thesis
    proof
      assume "l = rev cur" then show ?thesis by simp
    next
      assume "l \<in> set (splitlines_acc [] cs)"
      with "2.IH"(2) [OF brk(1,2)] have "sublist l cs" by simp
      then have "sublist l ((rev cur @ [c]) @ cs)" by (rule sublist_append_left_mono)
      then show ?thesis by simp
    qed
  next
    case plain
    with "2.IH"(3) [OF plain(1,2)] show ?thesis by simp
  qed
qed

lemma splitlines_acc_no_break:
  "\<forall>x \<in> set cur. \<not> is_line_break x \<Longrightarrow> l \<in> set (splitlines_acc cur s) \<Longrightarrow> x \<in> set l \<Longrightarrow> \<not> is_line_break x"
proof (induction cur s arbitrary: l rule: splitlines_acc.induct)
  case (1 cur)
  then show ?case by (simp split: if_splits)
next
  case (2 cur c cs)
  from "2.prems"(2) show ?case
  proof (cases rule: splitlines_acc_Cons_cases)
    case (crlf cs')
    then have g: "c = CHR 0x0D \<and> cs \<noteq> [] \<and> hd cs = CHR 0x0A" and t: "tl cs = cs'" by simp_all
    from crlf(3) show ?thesis
    proof
      assume "l = rev cur" with "2.prems"(1,3) show ?thesis by simp
    next
      assume "l \<in> set (splitlines_acc [] cs')"
      with "2.IH"(1) [OF g] t "2.prems"(3) show ?thesis by simp
    qed
  next
    case brk
    from brk(3) show ?thesis
    proof
      assume "l = rev cur" with "2.prems"(1,3) show ?thesis by simp
    next
      assume "l \<in> set (splitlines_acc [] cs)"
      with "2.IH"(2) [OF brk(1,2)] "2.prems"(3) show ?thesis by simp
    qed
  next
    case plain
    with "2.IH"(3) [OF plain(1,2)] "2.prems"(1,3) show ?thesis by simp
  qed
qed

lemma sublist_split_at:
  assumes "sublist w (xs @ b # ys)" and "b \<notin> set w"
  shows "sublist w xs \<or> sublist w ys"
proof -
  consider "sublist w xs" | "sublist w (b # ys)"
    | w1 w2 where "w = w1 @ w2" "suffix w1 xs" "prefix w2 (b # ys)"
    using assms(1) sublist_append by blast
  then show ?thesis
  proof cases
    case 2
    then have "prefix w (b # ys) \<or> sublist w ys" by (simp add: sublist_Cons_right)
    with assms(2) show ?thesis by (cases w) auto
  next
    case (3 w1 w2)
    with assms(2) show ?thesis by (cases w2) auto
  qed simp
qed

lemma splitlines_acc_find:
  assumes "w \<noteq> []" and "\<forall>x \<in> set w. \<not> is_line_break x"
  shows "sublist w (rev cur @ s) \<Longrightarrow> \<exists>l \<in> set (splitlines_acc cur s). sublist w l"
proof (induction cur s rule: splitlines_acc.induct)
  case (1 cur)
  with assms(1) show ?case by auto
next
  case (2 cur c cs)
  show ?case
  proof (cases "c = CHR 0x0D \<and> cs \<noteq> [] \<and> hd cs = CHR 0x0A")
    case True
    then obtain cs' where cs: "cs = CHR 0x0A # cs'" by (cases cs) auto
    have nb: "CHR 0x0D \<notin> set w" "CHR 0x0A \<notin> set w"
      using assms(2) by (auto simp: is_line_break_def)
    from "2.prems" True cs have "sublist w (rev cur @ CHR 0x0D # CHR 0x0A # cs')" by simp
    with nb(1) have "sublist w (rev cur) \<or> sublist w ([] @ CHR 0x0A # cs')"
      using sublist_split_at [of w "rev cur" "CHR 0x0D" "CHR 0x0A # cs'"] by simp
    with nb(2) have "sublist w (rev cur) \<or> sublist w cs'"
      using sublist_split_at [of w "[]" "CHR 0x0A" cs'] assms(1) by auto
    with "2.IH"(1) [OF True] True cs show ?thesis by auto
  next
    case F: False
    show ?thesis
    proof (cases "is_line_break c")
      case True
      with assms(2) have "c \<notin> set w" by blast
      with "2.prems" have "sublist w (rev cur) \<or> sublist w cs"
        using sublist_split_at [of w "rev cur" c cs] by simp
      with "2.IH"(2) [OF F True] F True show ?thesis by auto
    next
      case False
      have "splitlines_acc cur (c # cs) = splitlines_acc (c # cur) cs"
        by (simp only: splitlines_acc.simps(2) F False if_False)
      with "2.prems" "2.IH"(3) [OF F False] show ?thesis by simp
    qed
  qed
qed

lemma splitlines_acc_plain_append:
  "\<forall>x \<in> set l. \<not> is_line_break x \<Longrightarrow> splitlines_acc cur (l @ s) = splitlines_acc (rev l @ cur) s"
proof (induction l arbitrary: cur)
  case Nil
  then show ?case by simp
next
  case (Cons c l)
  then have nb: "\<not> is_line_break c" by simp
  then have "c \<noteq> CHR 0x0D" by (auto simp: is_line_break_def)
  with nb Cons show ?case by simp
qed

lemma splitlines_acc_LF: "splitlines_acc cur (CHR 0x0A # s) = rev cur # splitlines_acc [] s"
  by (simp add: is_line_break_def)

lemma splitlines_py_join_acc:
  "\<forall>l \<in> set ls. plain_line l \<Longrightarrow> splitlines_acc [] (py_join [CHR 0x0A] ls) = ls"
proof (induction "[CHR 0x0A]" ls rule: py_join.induct)
  case 1
  then show ?case by simp
next
  case (2 x)
  then have "plain_line x" by simp
  then show ?case
    using splitlines_acc_plain_append [of x "[]" "[]"] by (simp add: plain_line_def)
next
  case (3 x y zs)
  then have "plain_line x" by simp
  then have "splitlines_acc [] (x @ CHR 0x0A # py_join [CHR 0x0A] (y # zs)) =
      x # splitlines_acc [] (py_join [CHR 0x0A] (y # zs))"
    by (simp add: plain_line_def splitlines_acc_plain_append splitlines_acc_LF del: splitlines_acc.simps)
  with 3 show ?case by simp
qed

lemma splitlines_lines_plain: "l \<in> set (splitlines s) \<Longrightarrow> x \<in> set l \<Longrightarrow> \<not> is_line_break x"
  unfolding splitlines_def by (rule splitlines_acc_no_break) simp_all

lemma is_relevant_nonempty: "is_relevant l \<Longrightarrow> l \<noteq> []"
  by (auto simp: is_relevant_def)

lemma relevant_lines_plain: "l \<in> set (relevant_lines logs) \<Longrightarrow> plain_line l"
proof -
  assume "l \<in> set (relevant_lines logs)"
  then have "l \<in> set (py_tail 100 (filter is_relevant (splitlines logs)))"
    by (simp only: relevant_lines_def)
  then have "l \<in> set (filter is_relevant (splitlines logs))"
    using set_py_tail by (rule subsetD [rotated])
  then have r: "is_relevant l" and sp: "l \<in> set (splitlines logs)" by simp_all
  from r have "l \<noteq> []" by (rule is_relevant_nonempty)
  moreover from sp have "\<forall>x \<in> set l. \<not> is_line_break x" using splitlines_lines_plain by blast
  ultimately show "plain_line l" by (simp add: plain_line_def)
qed

lemma splitlines_py_lower: "splitlines (py_lower s) = map py_lower (splitlines s)"
  using splitlines_acc_py_lower [of "[]" s] by (simp add: splitlines_def)

lemma keyword_in_some_line:
  assumes "w \<noteq> []" and "\<forall>x \<in> set w. \<not> is_line_break x"
  shows "sublist w (py_lower s) \<longleftrightarrow> (\<exists>l \<in> set (splitlines s). sublist w (py_lower l))"
proof
  assume "sublist w (py_lower s)"
  with splitlines_acc_find [OF assms, of "[]" "py_lower s"]
  obtain l' where "l' \<in> set (splitlines (py_lower s))" "sublist w l'"
    by (auto simp: splitlines_def)
  then show "\<exists>l \<in> set (splitlines s). sublist w (py_lower l)"
    by (auto simp: splitlines_py_lower)
next
  assume "\<exists>l \<in> set (splitlines s). sublist w (py_lower l)"
  then obtain l where l: "l \<in> set (splitlines s)" "sublist w (py_lower l)" by blast
  from l(1) have "sublist l s"
    using splitlines_acc_sublist [of l "[]" s] by (simp add: splitlines_def)
  then have "sublist (py_lower l) (py_lower s)"
    unfolding py_lower_def by (rule sublist_map_mono)
  with l(2) show "sublist w (py_lower s)"
    using sublist_order.order.trans by blast
qed

lemma has_error_some_line: "has_error logs \<longleftrightarrow> (\<exists>l \<in> set (splitlines logs). is_relevant l)"
proof -
  have e: "sublist ''error'' (py_lower logs) \<longleftrightarrow> (\<exists>l \<in> set (splitlines logs). sublist ''error'' (py_lower l))"
    by (rule keyword_in_some_line) (simp_all add: is_line_break_def)
  have x: "sublist ''exception'' (py_lower logs) \<longleftrightarrow> (\<exists>l \<in> set (splitlines logs). sublist ''exception'' (py_lower l))"
    by (rule keyword_in_some_line) (simp_all add: is_line_break_def)
  show ?thesis
    unfolding has_error_def is_relevant_def py_in_sublist e x by blast
qed

lemma is_relevant_not_blank: "is_relevant l \<Longrightarrow> \<not> (\<forall>c \<in> set l. py_isspace c)"
proof
  assume r: "is_relevant l" and sp: "\<forall>c \<in> set l. py_isspace c"
  then have "py_lower l = l"
    unfolding py_lower_def by (simp add: map_idI py_isspace_lower_fixed)
  with r have "CHR ''e'' \<in> set l"
    by (auto simp: is_relevant_def py_in_sublist dest: set_mono_sublist)
  with sp show False by (auto simp: py_isspace_def)
qed

lemma excerpt_not_blank:
  assumes "relevant_lines logs \<noteq> []"
  shows "py_strip (extract_relevant_logs logs) \<noteq> []"
proof -
  from assms obtain l where l: "l \<in> set (relevant_lines logs)" by (cases "relevant_lines logs") auto
  then have "is_relevant l"
    unfolding relevant_lines_def using set_py_tail by fastforce
  then obtain c where c: "c \<in> set l" "\<not> py_isspace c"
    using is_relevant_not_blank by blast
  from l c(1) have "c \<in> set (extract_relevant_logs logs)"
    unfolding extract_relevant_logs_def by (rule set_py_join_member)
  with c(2) show ?thesis by (auto simp: py_strip_Nil_iff)
qed

lemma relevant_lines_join:
  "\<forall>l \<in> set ls. plain_line l \<Longrightarrow> relevant_lines (py_join [CHR 0x0A] ls) = py_tail 100 (filter is_relevant ls)"
  by (simp add: relevant_lines_def splitlines_def splitlines_py_join_acc)

subsection \<open>Properties of the extractor\<close>

text \<open>C11. The excerpt read back line by line is exactly the list of kept lines:
  \<open>extract_relevant_logs\<close> joins with \<open>\\n\<close> lines that are non-empty and hold
  no boundary, so \<open>splitlines\<close> recovers them one for one.\<close>

theorem extract_relevant_logs_roundtrip:
  "splitlines (extract_relevant_logs logs) = relevant_lines logs"
  unfolding extract_relevant_logs_def splitlines_def
  by (rule splitlines_py_join_acc) (blast intro: relevant_lines_plain)

text \<open>C12. The kept lines are the last \<open>min 100 k\<close> of the \<open>k\<close> lines that mention
  error or exception (a suffix of the filtered lines, hence in their original order),
  every one of them relevant, and together a subsequence of the log's lines.\<close>

theorem relevant_lines_last_100:
  "length (relevant_lines logs) = min 100 (length (filter is_relevant (splitlines logs))) \<and>
   suffix (relevant_lines logs) (filter is_relevant (splitlines logs)) \<and>
   list_all is_relevant (relevant_lines logs) \<and>
   subseq (relevant_lines logs) (splitlines logs)"
proof (intro conjI)
  show "length (relevant_lines logs) = min 100 (length (filter is_relevant (splitlines logs)))"
    by (simp add: relevant_lines_def)
  show suf: "suffix (relevant_lines logs) (filter is_relevant (splitlines logs))"
    unfolding relevant_lines_def by (rule py_tail_suffix)
  have "set (relevant_lines logs) \<subseteq> set (filter is_relevant (splitlines logs))"
    using suf by (rule set_mono_suffix)
  then show "list_all is_relevant (relevant_lines logs)"
    by (auto simp: list_all_iff)
  from suf have "subseq (relevant_lines logs) (filter is_relevant (splitlines logs))" by blast
  then show "subseq (relevant_lines logs) (splitlines logs)"
    using subseq_filter_left subseq_order.trans by blast
qed

text \<open>C13. The whole-log test of \<open>dashboard_data\<close> (line 155) agrees with the line
  filter of \<open>extract_relevant_logs\<close>: a log has an error or exception signal exactly
  when the excerpt keeps at least one line. A keyword holds no line boundary, so it
  never spans two lines.\<close>

theorem has_error_iff_relevant_lines:
  "has_error logs \<longleftrightarrow> relevant_lines logs \<noteq> []"
  unfolding has_error_some_line relevant_lines_def
  by (simp add: filter_empty_conv)

text \<open>C26. Lines without an error signal do not enter the excerpt: inserting such a line
  anywhere in a log leaves the excerpt, and so the log fingerprint
  \<open>hash_logs(trimmed_logs)\<close>, unchanged.\<close>

theorem excerpt_ignores_noise_lines:
  assumes "\<forall>l \<in> set (xs @ n # ys). plain_line l" and "\<not> is_relevant n"
  shows "extract_relevant_logs (py_join [CHR 0x0A] (xs @ n # ys)) =
         extract_relevant_logs (py_join [CHR 0x0A] (xs @ ys))"
  using assms by (simp add: extract_relevant_logs_def relevant_lines_join)

lemma excerpt_ignores_noise_lines_witness:
  "extract_relevant_logs (py_join [CHR 0x0A] [''boot ERROR'', ''all good'', ''Exception: x'']) =
   extract_relevant_logs (py_join [CHR 0x0A] [''boot ERROR'', ''Exception: x''])"
proof -
  have p: "\<forall>l \<in> set ([''boot ERROR''] @ ''all good'' # [''Exception: x'']). plain_line l" by code_simp
  have n: "\<not> is_relevant ''all good''" by code_simp
  from excerpt_ignores_noise_lines [OF p n] show ?thesis by simp
qed

text \<open>C27. The excerpt forgets old errors: once a log ends with 100 lines that mention
  an error, what comes before them changes neither the excerpt nor the fingerprint.\<close>

theorem excerpt_keeps_last_100:
  assumes "\<forall>l \<in> set (xs @ ys). plain_line l" and "100 \<le> length (filter is_relevant ys)"
  shows "extract_relevant_logs (py_join [CHR 0x0A] (xs @ ys)) = extract_relevant_logs (py_join [CHR 0x0A] ys)"
  using assms by (simp add: extract_relevant_logs_def relevant_lines_join py_tail_append_long)

lemma excerpt_keeps_last_100_witness:
  "extract_relevant_logs (py_join [CHR 0x0A] ([''old error''] @ replicate 100 ''error'')) =
   extract_relevant_logs (py_join [CHR 0x0A] (replicate 100 ''error''))"
proof -
  have r: "is_relevant ''error''" by code_simp
  have p: "\<forall>l \<in> set ([''old error''] @ replicate 100 ''error''). plain_line l"
    by (simp add: plain_line_def is_line_break_def)
  have n: "100 \<le> length (filter is_relevant (replicate 100 ''error''))"
    using r by (simp add: filter_replicate)
  from excerpt_keeps_last_100 [OF p n] show ?thesis .
qed

end
