(* ===== verification/Classifier.thy ===== *)
theory Classifier
  imports LogExcerpt
begin

text \<open>
  The health classifier: the part of the loop body of \<open>dashboard_data\<close>
  (\<open>src/eks.py\<close>, lines 117--160) that reads one pod's status, sums its restarts,
  finds the first waiting container and decides between the blocked branch (line 132),
  the log branch with an error signal (lines 154--159) and the healthy branch. The pod
  is the part of the \<open>kubectl get pods -o json\<close> item the code reads.
\<close>

record container_status =
  cs_restart_count :: "int option"   \<comment> \<open>\<open>c.get("restartCount")\<close>\<close>
  cs_waiting :: json_obj             \<comment> \<open>\<open>c.get("state", {}).get("waiting")\<close>; \<open>[]\<close> when absent\<close>

record pod =
  pod_name :: string                                  \<comment> \<open>\<open>pod["metadata"]["name"]\<close>\<close>
  pod_phase :: string                                 \<comment> \<open>\<open>pod["status"]["phase"]\<close>\<close>
  pod_container_statuses :: "container_status list"   \<comment> \<open>\<open>.get("containerStatuses", [])\<close>\<close>

datatype verdict =
    Blocked string string   \<comment> \<open>reason and message of the waiting container\<close>
  | ErrorInLogs string      \<comment> \<open>the excerpt \<open>extract_relevant_logs(logs)\<close>\<close>
  | Healthy

definition pod_restarts :: "'a pod_scheme \<Rightarrow> int" where
  \<comment> \<open>line 120: \<open>sum(int(c.get("restartCount", 0)) for c in container_statuses)\<close>\<close>
  "pod_restarts p =
     sum_list (map (\<lambda>c. case cs_restart_count c of None \<Rightarrow> 0 | Some n \<Rightarrow> n) (pod_container_statuses p))"

fun first_waiting :: "container_status list \<Rightarrow> string \<times> string" where
  \<comment> \<open>lines 123--130: the loop with \<open>break\<close>; an empty dict is falsy\<close>
  "first_waiting [] = ([], [])"
| "first_waiting (c # cs) =
     (if cs_waiting c \<noteq> []
      then (py_dict_get (cs_waiting c) ''reason'' [], py_dict_get (cs_waiting c) ''message'' [])
      else first_waiting cs)"

definition is_blocked :: "string \<Rightarrow> string \<Rightarrow> bool" where
  \<comment> \<open>line 132: \<open>status not in ["Running", "Succeeded", "Failed"] or reason\<close>\<close>
  "is_blocked status reason \<longleftrightarrow> status \<notin> set [''Running'', ''Succeeded'', ''Failed''] \<or> reason \<noteq> []"

definition classify :: "'a pod_scheme \<Rightarrow> string \<Rightarrow> verdict" where
  \<comment> \<open>\<open>logs\<close> is what \<open>get_logs\<close> returns; the code fetches it only in the log branch\<close>
  "classify p logs =
     (let (reason, message) = first_waiting (pod_container_statuses p) in
      if is_blocked (pod_phase p) reason then Blocked reason message
      else if has_error logs then ErrorInLogs (extract_relevant_logs logs)
      else Healthy)"

subsection \<open>Basic facts\<close>

lemma first_waiting_restarts [simp]:
  "first_waiting (map (cs_restart_count_update f) cs) = first_waiting cs"
  by (induction cs) simp_all

lemma classify_cases:
  "classify p logs = Blocked r m \<Longrightarrow> is_blocked (pod_phase p) r \<and> first_waiting (pod_container_statuses p) = (r, m)"
  "classify p logs = ErrorInLogs t \<Longrightarrow> \<not> is_blocked (pod_phase p) (fst (first_waiting (pod_container_statuses p))) \<and> has_error logs \<and> t = extract_relevant_logs logs"
  "classify p logs = Healthy \<Longrightarrow> \<not> is_blocked (pod_phase p) (fst (first_waiting (pod_container_statuses p))) \<and> \<not> has_error logs"
  by (auto simp: classify_def split: prod.splits if_splits)

lemma classify_blocked:
  "is_blocked (pod_phase p) (fst (first_waiting (pod_container_statuses p))) \<Longrightarrow>
   classify p logs = Blocked (fst (first_waiting (pod_container_statuses p))) (snd (first_waiting (pod_container_statuses p)))"
  by (cases "first_waiting (pod_container_statuses p)") (simp add: classify_def)

subsection \<open>Properties of the classifier\<close>

text \<open>C18. A pod in phase Running, Succeeded or Failed whose containers report no waiting
  reason is never classified as blocked; it is classified from its logs alone.\<close>

theorem classify_settled_not_blocked:
  assumes "pod_phase p \<in> {''Running'', ''Succeeded'', ''Failed''}"
    and "fst (first_waiting (pod_container_statuses p)) = []"
  shows "classify p logs = (if has_error logs then ErrorInLogs (extract_relevant_logs logs) else Healthy)"
  using assms by (cases "first_waiting (pod_container_statuses p)") (auto simp: classify_def is_blocked_def)

lemma classify_settled_not_blocked_witness:
  "pod_phase \<lparr>pod_name = ''web'', pod_phase = ''Succeeded'', pod_container_statuses = []\<rparr>
     \<in> {''Running'', ''Succeeded'', ''Failed''} \<and>
   fst (first_waiting (pod_container_statuses \<lparr>pod_name = ''web'', pod_phase = ''Succeeded'', pod_container_statuses = []\<rparr>)) = [] \<and>
   classify \<lparr>pod_name = ''web'', pod_phase = ''Succeeded'', pod_container_statuses = []\<rparr> ''ok'' = Healthy"
  using classify_settled_not_blocked [of "\<lparr>pod_name = ''web'', pod_phase = ''Succeeded'', pod_container_statuses = []\<rparr>" "''ok''"]
  by (simp add: has_error_def)

text \<open>C19. Restart counts are display-only: changing the \<open>restartCount\<close> of any
  container never changes the verdict (the silent-restart blind spot).\<close>

theorem classify_ignores_restarts:
  "classify (p\<lparr>pod_container_statuses := map (cs_restart_count_update f) (pod_container_statuses p)\<rparr>) logs =
   classify p logs"
  by (simp add: classify_def)

text \<open>C20. A pod whose phase is outside Running, Succeeded and Failed (Pending, and
  also Unknown) is classified as blocked with the first waiting reason and message,
  whatever its logs say.\<close>

theorem classify_unsettled_blocked:
  assumes "pod_phase p \<notin> {''Running'', ''Succeeded'', ''Failed''}"
  shows "classify p logs = Blocked (fst (first_waiting (pod_container_statuses p)))
                                   (snd (first_waiting (pod_container_statuses p)))"
  using assms by (simp add: classify_def is_blocked_def split: prod.splits)

lemma classify_unsettled_blocked_witness:
  "pod_phase \<lparr>pod_name = ''db'', pod_phase = ''Unknown'', pod_container_statuses = []\<rparr>
     \<notin> {''Running'', ''Succeeded'', ''Failed''} \<and>
   classify \<lparr>pod_name = ''db'', pod_phase = ''Unknown'', pod_container_statuses = []\<rparr> ''Exception'' = Blocked [] []"
  using classify_unsettled_blocked [of "\<lparr>pod_name = ''db'', pod_phase = ''Unknown'', pod_container_statuses = []\<rparr>" "''Exception''"]
  by simp

end
