(* ===== verification/Fingerprint.thy ===== *)
theory Fingerprint
  imports Classifier
begin

text \<open>
  The issue fingerprint engine of \<open>src/eks.py\<close>: the key
  \<open>f"{name}:{reason}:{message}"\<close> of a blocked pod (line 135) and
  \<open>hash_logs\<close> (lines 47--48), the MD5 hex digest of the excerpt (line 161). MD5 is
  the library \<open>hashlib\<close>; it enters as a parameter \<open>md5\<close> of type \<open>digest\<close>,
  and the only fact used of it is the shape of a hex digest, \<open>is_hexdigest\<close>.
  Both kinds of key live in the one dictionary \<open>sent_alerts\<close>.
\<close>

type_synonym digest = "string \<Rightarrow> string"

definition issue_key :: "string \<Rightarrow> string \<Rightarrow> string \<Rightarrow> fingerprint" where
  "issue_key name reason message = name @ '':'' @ reason @ '':'' @ message"

definition hash_logs :: "digest \<Rightarrow> string \<Rightarrow> fingerprint" where
  \<comment> \<open>\<open>hashlib.md5(logs.encode()).hexdigest()\<close>\<close>
  "hash_logs md5 logs = md5 logs"

definition is_hexdigest :: "string \<Rightarrow> bool" where
  \<comment> \<open>what \<open>hexdigest()\<close> of MD5 returns: 32 characters from \<open>0-9a-f\<close>\<close>
  "is_hexdigest h \<longleftrightarrow> length h = 32 \<and> set h \<subseteq> set ''0123456789abcdef''"

fun issue_fingerprint :: "digest \<Rightarrow> string \<Rightarrow> verdict \<Rightarrow> fingerprint option" where
  "issue_fingerprint md5 name (Blocked reason message) = Some (issue_key name reason message)"
| "issue_fingerprint md5 name (ErrorInLogs trimmed) = Some (hash_logs md5 trimmed)"
| "issue_fingerprint md5 name Healthy = None"

subsection \<open>Basic facts\<close>

lemma colon_in_issue_key: "CHR '':'' \<in> set (issue_key n r m)"
  by (simp add: issue_key_def)

lemma colon_not_hex: "is_hexdigest h \<Longrightarrow> CHR '':'' \<notin> set h"
  by (auto simp: is_hexdigest_def)

lemma split_at_colon:
  assumes "CHR '':'' \<notin> set a1" "CHR '':'' \<notin> set a2"
  shows "a1 @ CHR '':'' # b1 = a2 @ CHR '':'' # b2 \<longleftrightarrow> a1 = a2 \<and> b1 = b2"
  using assms
proof (induction a1 arbitrary: a2)
  case Nil
  then show ?case by (cases a2) auto
next
  case (Cons x a1)
  then show ?case by (cases a2) auto
qed

subsection \<open>Properties of the fingerprints\<close>

text \<open>C16. The blocked-pod key determines the pod name, the reason and the message as
  long as name and reason hold no colon (Kubernetes pod names never do).\<close>

theorem issue_key_injective:
  assumes "CHR '':'' \<notin> set n1" "CHR '':'' \<notin> set n2"
    and "CHR '':'' \<notin> set r1" "CHR '':'' \<notin> set r2"
  shows "issue_key n1 r1 m1 = issue_key n2 r2 m2 \<longleftrightarrow> n1 = n2 \<and> r1 = r2 \<and> m1 = m2"
  using assms by (simp add: issue_key_def split_at_colon)

lemma issue_key_injective_witness:
  "CHR '':'' \<notin> set ''web-1'' \<and> CHR '':'' \<notin> set ''web-2'' \<and>
   CHR '':'' \<notin> set ''ImagePullBackOff'' \<and> CHR '':'' \<notin> set ''ErrImagePull'' \<and>
   issue_key ''web-1'' ''ImagePullBackOff'' ''rate limited'' \<noteq> issue_key ''web-2'' ''ErrImagePull'' ''rate limited''"
  using issue_key_injective [of "''web-1''" "''web-2''" "''ImagePullBackOff''" "''ErrImagePull''"
      "''rate limited''" "''rate limited''"]
  by simp

text \<open>C23. Without that restriction the key is ambiguous: for every pod name, whenever
  the reason holds a colon there is a different (reason, message) pair with the same
  key, so two different issues of one pod share one suppression entry.\<close>

theorem issue_key_collision:
  assumes "CHR '':'' \<in> set reason"
  shows "\<exists>reason' message'. (reason', message') \<noteq> (reason, message) \<and>
           issue_key name reason' message' = issue_key name reason message"
proof -
  from assms obtain a b where r: "reason = a @ CHR '':'' # b" by (blast dest: split_list)
  have "(a, b @ CHR '':'' # message) \<noteq> (reason, message)" using r by auto
  moreover have "issue_key name a (b @ CHR '':'' # message) = issue_key name reason message"
    using r by (simp add: issue_key_def)
  ultimately show ?thesis by blast
qed

lemma issue_key_collision_witness:
  "CHR '':'' \<in> set ''Err:Pull'' \<and>
   (\<exists>reason' message'. (reason', message') \<noteq> (''Err:Pull'', ''x'') \<and>
      issue_key ''web'' reason' message' = issue_key ''web'' ''Err:Pull'' ''x'')"
  using issue_key_collision [where reason = "''Err:Pull''" and name = "''web''" and message = "''x''"] by simp

text \<open>C17. The two kinds of key never meet in \<open>sent_alerts\<close>: a blocked-pod key holds a
  colon and an MD5 hex digest does not, so a blocked issue and a log issue never
  suppress each other.\<close>

theorem blocked_and_log_keys_disjoint:
  assumes "is_hexdigest (md5 trimmed)"
  shows "issue_fingerprint md5 n (Blocked r m) \<noteq> issue_fingerprint md5 n' (ErrorInLogs trimmed)"
  using assms colon_in_issue_key [of n r m] colon_not_hex [of "md5 trimmed"]
  by (auto simp: hash_logs_def)

lemma blocked_and_log_keys_disjoint_witness:
  "is_hexdigest ((\<lambda>s. replicate 32 (CHR ''0'')) ''Exception'') \<and>
   issue_fingerprint (\<lambda>s. replicate 32 (CHR ''0'')) ''a'' (Blocked ''R'' ''M'') \<noteq>
   issue_fingerprint (\<lambda>s. replicate 32 (CHR ''0'')) ''b'' (ErrorInLogs ''Exception'')"
proof -
  have h: "is_hexdigest ((\<lambda>s. replicate 32 (CHR ''0'')) ''Exception'')"
    by (simp add: is_hexdigest_def)
  from h blocked_and_log_keys_disjoint [of "\<lambda>s. replicate 32 (CHR ''0'')" "''Exception''" "''a''" "''R''" "''M''" "''b''"]
  show ?thesis by blast
qed

end
