(* ===== verification/Suppression.thy ===== *)
theory Suppression
  imports Prelude
begin

text \<open>
  The alert suppression cache of \<open>src/eks.py\<close>: the global dictionary
  \<open>sent_alerts\<close> (line 10), the constant \<open>ALERT_TTL_SECONDS\<close> (line 14),
  \<open>should_send_alert\<close> (lines 95--99) and the store
  \<open>sent_alerts[key] = time.time()\<close> that \<open>dashboard_data\<close> performs after a
  notification (lines 140 and 165).

  The process state is a record: the dictionary, and the number of times
  \<open>time.time()\<close> has been called so far. The clock itself is a function from that
  count to the value \<open>time.time()\<close> returns, so every call of \<open>time.time()\<close> in the
  code is one reading of the clock, in the code's order. The record is extended by the
  dispatcher with what it needs; the operations here work on any extension.
\<close>

record monitor =
  sent_alerts :: "fingerprint \<rightharpoonup> timestamp"
  clock_reads :: nat

type_synonym clock = "nat \<Rightarrow> timestamp"

definition ALERT_TTL_SECONDS :: timestamp where
  "ALERT_TTL_SECONDS = 3600"

definition time_time :: "clock \<Rightarrow> 'a monitor_scheme \<Rightarrow> timestamp \<times> 'a monitor_scheme" where
  \<comment> \<open>one call of \<open>time.time()\<close>\<close>
  "time_time clk s = (clk (clock_reads s), s\<lparr>clock_reads := Suc (clock_reads s)\<rparr>)"

definition should_send_alert :: "clock \<Rightarrow> 'a monitor_scheme \<Rightarrow> fingerprint \<Rightarrow> bool \<times> 'a monitor_scheme" where
  \<comment> \<open>\<open>if not last_sent: return True\<close> is taken for a missing key and for \<open>0.0\<close>;
      only then is the clock read\<close>
  "should_send_alert clk s key =
     (case sent_alerts s key of
        None \<Rightarrow> (True, s)
      | Some last_sent \<Rightarrow>
          if last_sent = 0 then (True, s)
          else (let (now, s') = time_time clk s in (now - last_sent > ALERT_TTL_SECONDS, s')))"

definition record_alert :: "clock \<Rightarrow> 'a monitor_scheme \<Rightarrow> fingerprint \<Rightarrow> 'a monitor_scheme" where
  \<comment> \<open>\<open>sent_alerts[key] = time.time()\<close>\<close>
  "record_alert clk s key =
     (let (now, s') = time_time clk s in s'\<lparr>sent_alerts := (sent_alerts s')(key \<mapsto> now)\<rparr>)"

definition lookup_alert :: "'a monitor_scheme \<Rightarrow> fingerprint \<Rightarrow> timestamp option" where
  \<comment> \<open>\<open>sent_alerts[key]\<close>: \<open>None\<close> is the \<open>KeyError\<close> it raises\<close>
  "lookup_alert s key = sent_alerts s key"

subsection \<open>Abstract contract\<close>

text \<open>
  What the cache promises (\<open>shouldAlert\<close> of the specification): alert when the
  fingerprint has no entry, or when more than the TTL has passed since its entry.
\<close>

definition may_alert :: "(fingerprint \<rightharpoonup> timestamp) \<Rightarrow> timestamp \<Rightarrow> fingerprint \<Rightarrow> bool" where
  "may_alert tbl now key =
     (case tbl key of None \<Rightarrow> True | Some t \<Rightarrow> now - t > ALERT_TTL_SECONDS)"

definition stamps_positive :: "'a monitor_scheme \<Rightarrow> bool" where
  \<comment> \<open>every stored timestamp is after the epoch\<close>
  "stamps_positive s \<longleftrightarrow> (\<forall>t \<in> ran (sent_alerts s). 0 < t)"

definition clock_positive :: "clock \<Rightarrow> bool" where
  "clock_positive clk \<longleftrightarrow> (\<forall>n. 0 < clk n)"

subsection \<open>Basic facts\<close>

lemma time_time_fst [simp]: "fst (time_time clk s) = clk (clock_reads s)"
  by (simp add: time_time_def)

lemma sent_alerts_time_time [simp]: "sent_alerts (snd (time_time clk s)) = sent_alerts s"
  by (simp add: time_time_def)

lemma should_send_alert_None:
  "sent_alerts s key = None \<Longrightarrow> should_send_alert clk s key = (True, s)"
  by (simp add: should_send_alert_def)

lemma should_send_alert_Some:
  "sent_alerts s key = Some t \<Longrightarrow> t \<noteq> 0 \<Longrightarrow>
   should_send_alert clk s key =
     (clk (clock_reads s) - t > ALERT_TTL_SECONDS, s\<lparr>clock_reads := Suc (clock_reads s)\<rparr>)"
  by (simp add: should_send_alert_def time_time_def)

lemma should_send_alert_zero:
  "sent_alerts s key = Some 0 \<Longrightarrow> should_send_alert clk s key = (True, s)"
  by (simp add: should_send_alert_def)

lemma should_send_alert_table [simp]:
  "sent_alerts (snd (should_send_alert clk s key)) = sent_alerts s"
  by (auto simp: should_send_alert_def time_time_def split: option.splits)

lemma should_send_alert_reads:
  "clock_reads (snd (should_send_alert clk s key)) = clock_reads s \<or>
   clock_reads (snd (should_send_alert clk s key)) = Suc (clock_reads s)"
  by (auto simp: should_send_alert_def time_time_def split: option.splits)

lemma should_send_alert_state:
  "should_send_alert ck s key = (b, s') \<Longrightarrow>
   sent_alerts s' = sent_alerts s \<and> (s' = s \<or> s' = s\<lparr>clock_reads := Suc (clock_reads s)\<rparr>)"
  by (auto simp: should_send_alert_def time_time_def split: option.splits if_splits)

lemma record_alert_table [simp]:
  "sent_alerts (record_alert clk s key) = (sent_alerts s)(key \<mapsto> clk (clock_reads s))"
  by (simp add: record_alert_def time_time_def)

lemma record_alert_reads [simp]:
  "clock_reads (record_alert clk s key) = Suc (clock_reads s)"
  by (simp add: record_alert_def time_time_def)

lemma stamps_positive_record:
  "stamps_positive s \<Longrightarrow> clock_positive clk \<Longrightarrow> stamps_positive (record_alert clk s key)"
  unfolding stamps_positive_def clock_positive_def
  by (auto simp: ran_def)

lemma stamps_positive_step:
  assumes "stamps_positive s" "clock_positive ck"
    and "sent_alerts s' = sent_alerts s \<or> (\<exists>k n. sent_alerts s' = (sent_alerts s)(k \<mapsto> ck n))"
  shows "stamps_positive s'"
proof -
  have "ran (sent_alerts s') \<subseteq> ran (sent_alerts s) \<union> range ck"
    using assms(3) by (auto simp: ran_def split: if_splits)
  with assms(1,2) show ?thesis
    unfolding stamps_positive_def clock_positive_def by blast
qed

lemma stamps_positive_iff_table:
  "sent_alerts s' = sent_alerts s \<Longrightarrow> stamps_positive s' \<longleftrightarrow> stamps_positive s"
  by (simp add: stamps_positive_def)

lemma stamps_positive_lookup:
  "stamps_positive s \<Longrightarrow> sent_alerts s key = Some t \<Longrightarrow> 0 < t"
  by (auto simp: stamps_positive_def ran_def)

subsection \<open>Properties of the cache\<close>

text \<open>C3. Suppression is time-windowed: right after \<open>sent_alerts[key] = time.time()\<close>
  stored the clock reading \<open>t\<close>, \<open>should_send_alert\<close> at the next clock reading
  \<open>now\<close> allows a new alert exactly when \<open>now > t + 3600\<close>.\<close>

theorem suppression_window:
  assumes "clock_positive clk"
  shows "fst (should_send_alert clk (record_alert clk s key) key) \<longleftrightarrow>
         clk (clock_reads s) + ALERT_TTL_SECONDS < clk (Suc (clock_reads s))"
proof -
  have pos: "clk (clock_reads s) \<noteq> 0" using assms by (simp add: clock_positive_def less_imp_neq [symmetric])
  have "sent_alerts (record_alert clk s key) key = Some (clk (clock_reads s))" by simp
  from should_send_alert_Some [OF this pos] show ?thesis by auto
qed

lemma suppression_window_witness:
  "clock_positive (\<lambda>n. 1000 + 10 * real n) \<and>
   \<not> fst (should_send_alert (\<lambda>n. 1000 + 10 * real n)
          (record_alert (\<lambda>n. 1000 + 10 * real n) \<lparr>sent_alerts = Map.empty, clock_reads = 0\<rparr> ''k'') ''k'')"
proof -
  have c: "clock_positive (\<lambda>n. 1000 + 10 * real n)"
    by (simp add: clock_positive_def add_pos_nonneg)
  from suppression_window [OF c, of "\<lparr>sent_alerts = Map.empty, clock_reads = 0\<rparr>" "''k''"] c
  show ?thesis by (simp add: ALERT_TTL_SECONDS_def)
qed

text \<open>C4. Refinement of the contract: in a state whose stored timestamps are all after
  the epoch, \<open>should_send_alert\<close> answers what \<open>may_alert\<close> promises for the
  clock reading it takes, and it never changes the dictionary.\<close>

theorem should_send_alert_refines:
  assumes "stamps_positive s"
  shows "fst (should_send_alert clk s key) = may_alert (sent_alerts s) (clk (clock_reads s)) key \<and>
         sent_alerts (snd (should_send_alert clk s key)) = sent_alerts s"
proof (cases "sent_alerts s key")
  case None
  then show ?thesis by (simp add: should_send_alert_None may_alert_def)
next
  case (Some t)
  with assms have "t \<noteq> 0" using stamps_positive_lookup by fastforce
  with Some show ?thesis by (simp add: should_send_alert_Some may_alert_def)
qed

lemma should_send_alert_refines_witness:
  "stamps_positive \<lparr>sent_alerts = [''k'' \<mapsto> 5], clock_reads = 0\<rparr> \<and>
   fst (should_send_alert (\<lambda>n. 4000) \<lparr>sent_alerts = [''k'' \<mapsto> 5], clock_reads = 0\<rparr> ''k'') =
   may_alert [''k'' \<mapsto> 5] 4000 ''k''"
proof -
  have p: "stamps_positive \<lparr>sent_alerts = [''k'' \<mapsto> (5::real)], clock_reads = 0\<rparr>"
    by (simp add: stamps_positive_def)
  from should_send_alert_refines [OF p, of "\<lambda>n. 4000" "''k''"] p show ?thesis by simp
qed

end
