(* ===== verification/Dispatcher.thy ===== *)
theory Dispatcher
  imports Fingerprint Suppression
begin

text \<open>
  The diagnosis dispatcher: the loop body of \<open>dashboard_data\<close> (\<open>src/eks.py\<close>,
  lines 117--186) for one pod, with the helpers it calls: \<open>analyze_logs\<close>
  (lines 50--66), \<open>analyze_container_issue\<close> (lines 68--80) and \<open>send_email\<close>
  (lines 82--93).

  The outside world is a record of services. The Azure OpenAI chat call and the SMTP
  send are oracles indexed by the clock count (so they may answer differently over
  time); \<open>None\<close> and \<open>False\<close> are the exceptions they raise. Every call to them
  is an effect, kept in order in the effect list each operation returns, the failed
  ones included. An exception is a value \<open>Inl e\<close>; the state returned with it is
  the state at the moment it was raised, which is what the global \<open>sent_alerts\<close>
  holds afterwards.
\<close>

datatype effect =
    AskAI string              \<comment> \<open>\<open>client.chat.completions.create\<close> with this user content\<close>
  | SendMail string string    \<comment> \<open>\<open>send_email(subject, body)\<close>\<close>

datatype error =
    AIError                   \<comment> \<open>the OpenAI call raised\<close>
  | MailError                 \<comment> \<open>\<open>smtplib\<close> raised\<close>
  | KeyError fingerprint      \<comment> \<open>\<open>sent_alerts[key]\<close> on a missing key\<close>

record services =
  clk :: clock
  md5 :: digest
  ai :: "nat \<Rightarrow> string \<Rightarrow> string option"
  smtp :: "nat \<Rightarrow> string \<Rightarrow> string \<Rightarrow> bool"

record pod_obs = pod +
  obs_manifest :: string   \<comment> \<open>\<open>get_manifest(name, namespace)\<close>, line 121\<close>
  obs_logs :: string       \<comment> \<open>\<open>get_logs(name, namespace)\<close>, line 154\<close>

datatype status_icon = Hourglass | CrossMark | CheckMark

datatype feedback =
    AIFeedback string              \<comment> \<open>the text the analysis returned\<close>
  | PreviouslyReported timestamp   \<comment> \<open>\<open>"Issue previously reported. Last alert sent: ..."\<close>\<close>
  | NoCriticalIssues               \<comment> \<open>\<open>"No critical issues found."\<close>\<close>

record pod_row =
  row_name :: string
  row_color :: string
  row_icon :: status_icon
  row_phase :: string
  row_restarts :: int
  row_feedback :: feedback

datatype diagnostic =
    ContainerIssue string string string timestamp feedback   \<comment> \<open>name, reason, message, last alert, feedback\<close>
  | LogIssue string timestamp string                         \<comment> \<open>name, last alert, excerpt\<close>

abbreviation LF :: char where "LF \<equiv> CHR 0x0A"

definition with_manifest :: "string \<Rightarrow> string \<Rightarrow> string \<Rightarrow> string" where
  \<comment> \<open>\<open>if manifest: context += f"\n\n{title}\n{manifest}"\<close>\<close>
  "with_manifest context title manifest =
     (if manifest \<noteq> [] then context @ [LF, LF] @ title @ [LF] @ manifest else context)"

definition ask_ai :: "services \<Rightarrow> nat \<Rightarrow> string \<Rightarrow> effect list \<times> (error + string)" where
  "ask_ai sv n context =
     ([AskAI context], case ai sv n context of None \<Rightarrow> Inl AIError | Some r \<Rightarrow> Inr r)"

definition analyze_logs :: "services \<Rightarrow> nat \<Rightarrow> string \<Rightarrow> string \<Rightarrow> effect list \<times> (error + string)" where
  "analyze_logs sv n logs manifest =
     (let trimmed_logs = extract_relevant_logs logs in
      if py_strip trimmed_logs = [] then ([], Inr ''No critical errors or exceptions found in logs.'')
      else ask_ai sv n (with_manifest (''Analyze these logs and suggest fixes:'' @ [LF] @ trimmed_logs)
                                      ''Here is the full pod manifest:'' manifest))"

definition analyze_container_issue ::
  "services \<Rightarrow> nat \<Rightarrow> string \<Rightarrow> string \<Rightarrow> string \<Rightarrow> effect list \<times> (error + string)" where
  "analyze_container_issue sv n reason message manifest =
     ask_ai sv n (with_manifest (''Pod is failing with reason: '' @ reason @ [LF] @ ''Message: '' @ message)
                                ''Pod manifest:'' manifest)"

definition send_email :: "services \<Rightarrow> nat \<Rightarrow> string \<Rightarrow> string \<Rightarrow> effect list \<times> (error + unit)" where
  "send_email sv n subject body =
     ([SendMail subject body], if smtp sv n subject body then Inr () else Inl MailError)"

definition alert_or_suppress ::
  "services \<Rightarrow> fingerprint \<Rightarrow> string \<Rightarrow> (nat \<Rightarrow> effect list \<times> (error + string)) \<Rightarrow>
   'a monitor_scheme \<Rightarrow> effect list \<times> 'a monitor_scheme \<times> (error + feedback)" where
  \<comment> \<open>lines 137--142 and 162--167: analyse, mail, then record; or report the last alert\<close>
  "alert_or_suppress sv key name analyze s =
     (let (ok, s1) = should_send_alert (clk sv) s key in
      if ok then
        (let (es1, r1) = analyze (clock_reads s1) in
         case r1 of
           Inl e \<Rightarrow> (es1, s1, Inl e)
         | Inr fb \<Rightarrow>
             (let (es2, r2) = send_email sv (clock_reads s1) (''Issue in pod '' @ name) fb in
              case r2 of
                Inl e \<Rightarrow> (es1 @ es2, s1, Inl e)
              | Inr _ \<Rightarrow> (es1 @ es2, record_alert (clk sv) s1 key, Inr (AIFeedback fb))))
      else
        (case lookup_alert s1 key of
           None \<Rightarrow> ([], s1, Inl (KeyError key))
         | Some t \<Rightarrow> ([], s1, Inr (PreviouslyReported t))))"

definition mk_row :: "'b pod_obs_scheme \<Rightarrow> string \<Rightarrow> status_icon \<Rightarrow> feedback \<Rightarrow> pod_row" where
  "mk_row p color icon fb =
     \<lparr>row_name = pod_name p, row_color = color, row_icon = icon, row_phase = pod_phase p,
      row_restarts = pod_restarts p, row_feedback = fb\<rparr>"

definition dispatch_pod ::
  "services \<Rightarrow> 'b pod_obs_scheme \<Rightarrow> 'a monitor_scheme \<Rightarrow>
   effect list \<times> 'a monitor_scheme \<times> (error + pod_row \<times> diagnostic option)" where
  "dispatch_pod sv p s =
     (case classify p (obs_logs p) of
        Blocked reason message \<Rightarrow>
          (let key = issue_key (pod_name p) reason message;
               (es, s', r) = alert_or_suppress sv key (pod_name p)
                               (\<lambda>n. analyze_container_issue sv n reason message (obs_manifest p)) s in
           case r of
             Inl e \<Rightarrow> (es, s', Inl e)
           | Inr fb \<Rightarrow>
               (case lookup_alert s' key of
                  None \<Rightarrow> (es, s', Inl (KeyError key))
                | Some t \<Rightarrow> (es, s', Inr (mk_row p ''#fff3cd'' Hourglass fb,
                                          Some (ContainerIssue (pod_name p) reason message t fb)))))
      | ErrorInLogs trimmed_logs \<Rightarrow>
          (let key = hash_logs (md5 sv) trimmed_logs;
               (es, s', r) = alert_or_suppress sv key (pod_name p)
                               (\<lambda>n. analyze_logs sv n (obs_logs p) (obs_manifest p)) s in
           case r of
             Inl e \<Rightarrow> (es, s', Inl e)
           | Inr fb \<Rightarrow>
               (case lookup_alert s' key of
                  None \<Rightarrow> (es, s', Inl (KeyError key))
                | Some t \<Rightarrow> (es, s', Inr (mk_row p ''#f8d7da'' CrossMark fb,
                                          Some (LogIssue (pod_name p) t trimmed_logs)))))
      | Healthy \<Rightarrow> ([], s, Inr (mk_row p ''#d4edda'' CheckMark NoCriticalIssues, None)))"

subsection \<open>Helpers for the proofs\<close>

text \<open>A dispatch whose pod has a fingerprint is the alert-or-suppress step on that key,
  followed by a lookup of the key that cannot fail; \<open>lift_report\<close> names that shape.
  The example services and pod are Scenario 2 of the specification: a pending pod whose
  image pull is rate limited, a clock that ticks ten seconds per reading, an analysis
  service that answers and a mail server that accepts.\<close>

definition lift_report ::
  "effect list \<times> 'a monitor_scheme \<times> (error + feedback) \<Rightarrow> fingerprint \<Rightarrow> (feedback \<Rightarrow> timestamp \<Rightarrow> 'r) \<Rightarrow>
   effect list \<times> 'a monitor_scheme \<times> (error + 'r)" where
  "lift_report res key out =
     (case res of (es, s', Inl e) \<Rightarrow> (es, s', Inl e)
                | (es, s', Inr fb) \<Rightarrow> (es, s', Inr (out fb (the (sent_alerts s' key)))))"

definition example_services :: services where
  "example_services =
     \<lparr>clk = (\<lambda>n. 1000 + 10 * real n), md5 = (\<lambda>s. replicate 32 (CHR ''0'')),
      ai = (\<lambda>n c. Some ''Check the registry quota.''), smtp = (\<lambda>n subj body. True)\<rparr>"

definition example_pod :: pod_obs where
  "example_pod =
     \<lparr>pod_name = ''web'', pod_phase = ''Pending'',
      pod_container_statuses =
        [\<lparr>cs_restart_count = Some 0,
           cs_waiting = [(''reason'', ''ImagePullBackOff''), (''message'', ''rate limited'')]\<rparr>],
      obs_manifest = [], obs_logs = []\<rparr>"

definition row_wf :: "pod_row \<Rightarrow> bool" where
  \<comment> \<open>the three kinds of row of the report: colour, icon and feedback agree\<close>
  "row_wf r \<longleftrightarrow>
     (row_icon r = Hourglass \<and> row_color r = ''#fff3cd'' \<or>
      row_icon r = CrossMark \<and> row_color r = ''#f8d7da'' \<or>
      row_icon r = CheckMark \<and> row_color r = ''#d4edda'') \<and>
     (row_icon r = CheckMark \<longleftrightarrow> row_feedback r = NoCriticalIssues)"

subsection \<open>Lemmas on one alert step\<close>

lemma should_send_alert_False_present:
  "\<not> fst (should_send_alert ck s key) \<Longrightarrow> \<exists>t. sent_alerts s key = Some t \<and> t \<noteq> 0"
  by (auto simp: should_send_alert_def split: option.splits if_splits prod.splits)

lemma alert_or_suppress_unfold:
  assumes "should_send_alert (clk sv) s key = (ok, s1)"
  shows "alert_or_suppress sv key name an s =
    (if ok then
       (case an (clock_reads s1) of
          (es1, Inl e) \<Rightarrow> (es1, s1, Inl e)
        | (es1, Inr fb) \<Rightarrow>
            (if smtp sv (clock_reads s1) (''Issue in pod '' @ name) fb
             then (es1 @ [SendMail (''Issue in pod '' @ name) fb], record_alert (clk sv) s1 key, Inr (AIFeedback fb))
             else (es1 @ [SendMail (''Issue in pod '' @ name) fb], s1, Inl MailError)))
     else
       (case sent_alerts s1 key of
          None \<Rightarrow> ([], s1, Inl (KeyError key))
        | Some t \<Rightarrow> ([], s1, Inr (PreviouslyReported t))))"
  using assms
  by (simp add: alert_or_suppress_def send_email_def lookup_alert_def split: prod.splits sum.splits)

lemma alert_or_suppress_cases:
  assumes "alert_or_suppress sv key name (\<lambda>n. ask_ai sv n ctx) s = (es, s', r)"
  obtains (ai_fail) s1 where "should_send_alert (clk sv) s key = (True, s1)"
      "ai sv (clock_reads s1) ctx = None" "es = [AskAI ctx]" "s' = s1" "r = Inl AIError"
  | (mail_fail) s1 fb where "should_send_alert (clk sv) s key = (True, s1)"
      "ai sv (clock_reads s1) ctx = Some fb" "\<not> smtp sv (clock_reads s1) (''Issue in pod '' @ name) fb"
      "es = [AskAI ctx, SendMail (''Issue in pod '' @ name) fb]" "s' = s1" "r = Inl MailError"
  | (alerted) s1 fb where "should_send_alert (clk sv) s key = (True, s1)"
      "ai sv (clock_reads s1) ctx = Some fb" "smtp sv (clock_reads s1) (''Issue in pod '' @ name) fb"
      "es = [AskAI ctx, SendMail (''Issue in pod '' @ name) fb]" "s' = record_alert (clk sv) s1 key"
      "r = Inr (AIFeedback fb)"
  | (suppressed) s1 t where "should_send_alert (clk sv) s key = (False, s1)"
      "sent_alerts s key = Some t" "es = []" "s' = s1" "r = Inr (PreviouslyReported t)"
proof -
  obtain ok s1 where ss: "should_send_alert (clk sv) s key = (ok, s1)"
    by (cases "should_send_alert (clk sv) s key") auto
  from should_send_alert_state [OF ss] have tbl: "sent_alerts s1 = sent_alerts s" by simp
  show ?thesis
  proof (cases ok)
    case True
    show ?thesis
    proof (cases "ai sv (clock_reads s1) ctx")
      case None
      with assms ss True show ?thesis
        by (intro ai_fail [of s1]) (simp_all add: alert_or_suppress_unfold ask_ai_def)
    next
      case (Some fb)
      with assms ss True show ?thesis
        by (cases "smtp sv (clock_reads s1) (''Issue in pod '' @ name) fb")
           (simp_all add: alert_or_suppress_unfold ask_ai_def that)
    qed
  next
    case False
    with ss have "\<not> fst (should_send_alert (clk sv) s key)" by simp
    then obtain t where t: "sent_alerts s key = Some t" by (blast dest: should_send_alert_False_present)
    with assms ss False tbl show ?thesis
      by (intro suppressed [of s1 t]) (simp_all add: alert_or_suppress_unfold)
  qed
qed

lemma alert_or_suppress_Inr_present:
  "alert_or_suppress sv key name (\<lambda>n. ask_ai sv n ctx) s = (es, s', Inr fb) \<Longrightarrow> sent_alerts s' key \<noteq> None"
  by (erule alert_or_suppress_cases) (auto dest: should_send_alert_state)

lemma alert_or_suppress_Inl:
  "alert_or_suppress sv key name (\<lambda>n. ask_ai sv n ctx) s = (es, s', Inl e) \<Longrightarrow>
   sent_alerts s' = sent_alerts s \<and> (e = AIError \<or> e = MailError)"
  by (erule alert_or_suppress_cases) (auto dest: should_send_alert_state)

lemma alert_or_suppress_table:
  assumes "alert_or_suppress sv key name (\<lambda>n. ask_ai sv n ctx) s = (es, s', r)"
  shows "sent_alerts s' = sent_alerts s \<or> (\<exists>n. sent_alerts s' = (sent_alerts s)(key \<mapsto> clk sv n))"
  using assms
proof (cases rule: alert_or_suppress_cases)
  case (alerted s1 fb)
  from should_send_alert_state [OF alerted(1)] alerted(5) show ?thesis by auto
qed (auto dest: should_send_alert_state)

lemma alert_or_suppress_suppressed:
  assumes "sent_alerts s key = Some t" "t \<noteq> 0" "clk sv (clock_reads s) - t \<le> ALERT_TTL_SECONDS"
  shows "alert_or_suppress sv key name an s = ([], s\<lparr>clock_reads := Suc (clock_reads s)\<rparr>, Inr (PreviouslyReported t))"
  using assms by (simp add: alert_or_suppress_def should_send_alert_Some lookup_alert_def)

lemma alert_or_suppress_asks:
  "should_send_alert (clk sv) s key = (True, s1) \<Longrightarrow>
   \<exists>rest. fst (alert_or_suppress sv key name (\<lambda>n. ask_ai sv n ctx) s) = AskAI ctx # rest"
  by (auto simp: alert_or_suppress_unfold ask_ai_def split: option.splits)

lemma alert_or_suppress_fresh_asks:
  "sent_alerts s key = None \<Longrightarrow> \<exists>rest. fst (alert_or_suppress sv key name (\<lambda>n. ask_ai sv n ctx) s) = AskAI ctx # rest"
  by (rule alert_or_suppress_asks [OF should_send_alert_None])

lemma has_error_excerpt_not_blank:
  "has_error logs \<Longrightarrow> py_strip (extract_relevant_logs logs) \<noteq> []"
  by (rule excerpt_not_blank) (simp add: relevant_lines_def has_error_some_line filter_empty_conv)

lemma analyze_logs_asks:
  "has_error logs \<Longrightarrow>
   analyze_logs sv n logs manifest =
     ask_ai sv n (with_manifest (''Analyze these logs and suggest fixes:'' @ [LF] @ extract_relevant_logs logs)
                                ''Here is the full pod manifest:'' manifest)"
  by (simp add: analyze_logs_def has_error_excerpt_not_blank)

lemma dispatch_pod_via_alert:
  assumes "issue_fingerprint (md5 sv) (pod_name p) (classify p (obs_logs p)) = Some key"
  obtains ctx out where
    "\<And>s. dispatch_pod sv p s = lift_report (alert_or_suppress sv key (pod_name p) (\<lambda>n. ask_ai sv n ctx) s) key out"
proof (cases "classify p (obs_logs p)")
  case (Blocked reason message)
  let ?ctx = "with_manifest (''Pod is failing with reason: '' @ reason @ [LF] @ ''Message: '' @ message)
                                ''Pod manifest:'' (obs_manifest p)"
  let ?out = "\<lambda>fb t. (mk_row p ''#fff3cd'' Hourglass fb, Some (ContainerIssue (pod_name p) reason message t fb))"
  have an: "(\<lambda>n. analyze_container_issue sv n reason message (obs_manifest p)) = (\<lambda>n. ask_ai sv n ?ctx)"
    by (simp add: analyze_container_issue_def)
  from Blocked assms have k: "key = issue_key (pod_name p) reason message" by simp
  have d: "dispatch_pod sv p s = lift_report (alert_or_suppress sv key (pod_name p) (\<lambda>n. ask_ai sv n ?ctx) s) key ?out"
    for s
  proof -
    obtain es s' r where aos: "alert_or_suppress sv key (pod_name p) (\<lambda>n. ask_ai sv n ?ctx) s = (es, s', r)"
      by (cases "alert_or_suppress sv key (pod_name p) (\<lambda>n. ask_ai sv n ?ctx) s") auto
    have "dispatch_pod sv p s = lift_report (es, s', r) key ?out"
      using Blocked k an aos alert_or_suppress_Inr_present [of sv key "pod_name p" ?ctx s es s']
      by (cases r) (auto simp: dispatch_pod_def lookup_alert_def lift_report_def)
    then show ?thesis by (simp only: aos)
  qed
  show ?thesis by (rule that [of ?ctx ?out]) (rule d)
next
  case (ErrorInLogs trimmed)
  let ?ctx = "with_manifest (''Analyze these logs and suggest fixes:'' @ [LF] @ extract_relevant_logs (obs_logs p))
                                ''Here is the full pod manifest:'' (obs_manifest p)"
  let ?out = "\<lambda>fb t. (mk_row p ''#f8d7da'' CrossMark fb, Some (LogIssue (pod_name p) t trimmed))"
  from ErrorInLogs have "has_error (obs_logs p)" by (simp add: classify_cases(2))
  then have an: "(\<lambda>n. analyze_logs sv n (obs_logs p) (obs_manifest p)) = (\<lambda>n. ask_ai sv n ?ctx)"
    by (simp add: analyze_logs_asks)
  from ErrorInLogs assms have k: "key = hash_logs (md5 sv) trimmed" by simp
  have d: "dispatch_pod sv p s = lift_report (alert_or_suppress sv key (pod_name p) (\<lambda>n. ask_ai sv n ?ctx) s) key ?out"
    for s
  proof -
    obtain es s' r where aos: "alert_or_suppress sv key (pod_name p) (\<lambda>n. ask_ai sv n ?ctx) s = (es, s', r)"
      by (cases "alert_or_suppress sv key (pod_name p) (\<lambda>n. ask_ai sv n ?ctx) s") auto
    have "dispatch_pod sv p s = lift_report (es, s', r) key ?out"
      using ErrorInLogs k an aos alert_or_suppress_Inr_present [of sv key "pod_name p" ?ctx s es s']
      by (cases r) (auto simp: dispatch_pod_def lookup_alert_def lift_report_def)
    then show ?thesis by (simp only: aos)
  qed
  show ?thesis by (rule that [of ?ctx ?out]) (rule d)
next
  case Healthy
  with assms show ?thesis by simp
qed

subsection \<open>Lemmas on a whole dispatch\<close>

lemma lift_report_Inr:
  "lift_report res key out = (es, s', Inr x) \<Longrightarrow> \<exists>fb. res = (es, s', Inr fb)"
  by (auto simp: lift_report_def split: prod.splits sum.splits)

lemma lift_report_Inl:
  "lift_report res key out = (es, s', Inl e) \<Longrightarrow> res = (es, s', Inl e)"
  by (auto simp: lift_report_def split: prod.splits sum.splits)

lemma lift_report_fst [simp]:
  "fst (lift_report res key out) = fst res" "fst (snd (lift_report res key out)) = fst (snd res)"
  by (auto simp: lift_report_def split: prod.splits sum.splits)

lemma lift_report_isl [simp]:
  "isl (snd (snd (lift_report res key out))) = isl (snd (snd res))"
  by (auto simp: lift_report_def split: prod.splits sum.splits)

lemma issue_fingerprint_None: "issue_fingerprint h n v = None \<longleftrightarrow> v = Healthy"
  by (cases v) auto

lemma dispatch_pod_healthy:
  "classify p (obs_logs p) = Healthy \<Longrightarrow>
   dispatch_pod sv p s = ([], s, Inr (mk_row p ''#d4edda'' CheckMark NoCriticalIssues, None))"
  by (simp add: dispatch_pod_def)

lemma alert_or_suppress_stamps_positive:
  assumes "alert_or_suppress sv key name (\<lambda>n. ask_ai sv n ctx) s = (es, s', r)"
    and "stamps_positive s" "clock_positive (clk sv)"
  shows "stamps_positive s'"
proof (rule stamps_positive_step [OF assms(2,3)])
  show "sent_alerts s' = sent_alerts s \<or> (\<exists>k n. sent_alerts s' = (sent_alerts s)(k \<mapsto> clk sv n))"
    using alert_or_suppress_table [OF assms(1)] by blast
qed

lemma dispatch_pod_table:
  "sent_alerts (fst (snd (dispatch_pod sv p s))) = sent_alerts s \<or>
   (\<exists>key n. sent_alerts (fst (snd (dispatch_pod sv p s))) = (sent_alerts s)(key \<mapsto> clk sv n))"
proof (cases "issue_fingerprint (md5 sv) (pod_name p) (classify p (obs_logs p))")
  case None
  then show ?thesis by (simp add: issue_fingerprint_None dispatch_pod_healthy)
next
  case (Some key)
  then obtain ctx out where d: "dispatch_pod sv p s = lift_report (alert_or_suppress sv key (pod_name p) (\<lambda>n. ask_ai sv n ctx) s) key out"
    by (rule dispatch_pod_via_alert) blast+
  obtain es s' r where a: "alert_or_suppress sv key (pod_name p) (\<lambda>n. ask_ai sv n ctx) s = (es, s', r)"
    by (cases "alert_or_suppress sv key (pod_name p) (\<lambda>n. ask_ai sv n ctx) s") auto
  from alert_or_suppress_table [OF a] d a show ?thesis by auto
qed

lemma dispatch_pod_stamps_positive:
  "stamps_positive s \<Longrightarrow> clock_positive (clk sv) \<Longrightarrow> stamps_positive (fst (snd (dispatch_pod sv p s)))"
  using dispatch_pod_table [of sv p s] by (rule stamps_positive_step [rotated 2])

lemma dispatch_pod_Inl:
  assumes "dispatch_pod sv p s = (es, s1, Inl e)"
  shows "sent_alerts s1 = sent_alerts s \<and> (e = AIError \<or> e = MailError)"
proof (cases "issue_fingerprint (md5 sv) (pod_name p) (classify p (obs_logs p))")
  case None
  with assms show ?thesis by (simp add: issue_fingerprint_None dispatch_pod_healthy)
next
  case (Some key)
  then obtain ctx out where "dispatch_pod sv p s = lift_report (alert_or_suppress sv key (pod_name p) (\<lambda>n. ask_ai sv n ctx) s) key out"
    by (rule dispatch_pod_via_alert) blast+
  with assms have "alert_or_suppress sv key (pod_name p) (\<lambda>n. ask_ai sv n ctx) s = (es, s1, Inl e)"
    by (metis lift_report_Inl)
  then show ?thesis by (rule alert_or_suppress_Inl)
qed

lemma dispatch_pod_diag:
  "dispatch_pod sv p s = (es, s', Inr (row, d)) \<Longrightarrow> d = None \<longleftrightarrow> classify p (obs_logs p) = Healthy"
  by (auto simp: dispatch_pod_def Let_def split: verdict.splits prod.splits sum.splits option.splits)

lemma dispatch_pod_no_smtp:
  assumes "\<forall>n a b. \<not> smtp sv n a b"
  shows "sent_alerts (fst (snd (dispatch_pod sv p s))) = sent_alerts s"
proof (cases "issue_fingerprint (md5 sv) (pod_name p) (classify p (obs_logs p))")
  case None
  then show ?thesis by (simp add: issue_fingerprint_None dispatch_pod_healthy)
next
  case (Some key)
  then obtain ctx out where d: "dispatch_pod sv p s = lift_report (alert_or_suppress sv key (pod_name p) (\<lambda>n. ask_ai sv n ctx) s) key out"
    by (rule dispatch_pod_via_alert) blast+
  obtain es s' r where a: "alert_or_suppress sv key (pod_name p) (\<lambda>n. ask_ai sv n ctx) s = (es, s', r)"
    by (cases "alert_or_suppress sv key (pod_name p) (\<lambda>n. ask_ai sv n ctx) s") auto
  have "sent_alerts s' = sent_alerts s"
    using a
  proof (cases rule: alert_or_suppress_cases)
    case (alerted s1 fb)
    with assms show ?thesis by simp
  qed (auto dest: should_send_alert_state)
  with d a show ?thesis by (simp add: lift_report_def split: sum.splits)
qed

subsection \<open>Properties of the dispatcher\<close>

text \<open>C1. Idempotence: once a dispatch of a pod with an issue has returned normally, the
  issue's fingerprint has an entry in \<open>sent_alerts\<close>, and dispatching the unchanged pod
  again while the clock is within the TTL of that entry asks nothing of the analysis
  service, sends no mail, leaves \<open>sent_alerts\<close> as it is and returns normally.\<close>

theorem dispatch_idempotent_within_ttl:
  assumes run: "dispatch_pod sv p s = (es, s1, Inr out)"
    and pos: "stamps_positive s" and clock: "clock_positive (clk sv)"
    and fp: "issue_fingerprint (md5 sv) (pod_name p) (classify p (obs_logs p)) = Some key"
  shows "\<exists>t. sent_alerts s1 key = Some t \<and>
           (clk sv (clock_reads s1) - t \<le> ALERT_TTL_SECONDS \<longrightarrow>
              fst (dispatch_pod sv p s1) = [] \<and>
              sent_alerts (fst (snd (dispatch_pod sv p s1))) = sent_alerts s1 \<and>
              \<not> isl (snd (snd (dispatch_pod sv p s1))))"
proof -
  obtain ctx out1 where d1: "dispatch_pod sv p s = lift_report (alert_or_suppress sv key (pod_name p) (\<lambda>n. ask_ai sv n ctx) s) key out1"
    using fp by (rule dispatch_pod_via_alert) blast+
  from run d1 obtain fb where a1: "alert_or_suppress sv key (pod_name p) (\<lambda>n. ask_ai sv n ctx) s = (es, s1, Inr fb)"
    by (metis lift_report_Inr)
  from alert_or_suppress_Inr_present [OF a1] obtain t where t: "sent_alerts s1 key = Some t" by blast
  from alert_or_suppress_stamps_positive [OF a1 pos clock] t have "t \<noteq> 0"
    using stamps_positive_lookup by fastforce
  have "clk sv (clock_reads s1) - t \<le> ALERT_TTL_SECONDS \<longrightarrow>
          fst (dispatch_pod sv p s1) = [] \<and>
          sent_alerts (fst (snd (dispatch_pod sv p s1))) = sent_alerts s1 \<and>
          \<not> isl (snd (snd (dispatch_pod sv p s1)))"
  proof
    assume win: "clk sv (clock_reads s1) - t \<le> ALERT_TTL_SECONDS"
    obtain ctx' out2 where d2: "dispatch_pod sv p s1 = lift_report (alert_or_suppress sv key (pod_name p) (\<lambda>n. ask_ai sv n ctx') s1) key out2"
      using fp by (rule dispatch_pod_via_alert) blast+
    from alert_or_suppress_suppressed [OF t \<open>t \<noteq> 0\<close> win] d2 show "fst (dispatch_pod sv p s1) = [] \<and>
          sent_alerts (fst (snd (dispatch_pod sv p s1))) = sent_alerts s1 \<and>
          \<not> isl (snd (snd (dispatch_pod sv p s1)))" by simp
  qed
  with t show ?thesis by blast
qed

lemma dispatch_idempotent_within_ttl_witness:
  "fst (dispatch_pod example_services example_pod
          (fst (snd (dispatch_pod example_services example_pod \<lparr>sent_alerts = Map.empty, clock_reads = 0\<rparr>)))) = []"
proof -
  let ?s0 = "\<lparr>sent_alerts = Map.empty, clock_reads = 0\<rparr>"
  let ?r = "dispatch_pod example_services example_pod ?s0"
  let ?key = "issue_key ''web'' ''ImagePullBackOff'' ''rate limited''"
  have ok: "\<not> isl (snd (snd ?r))" by code_simp
  then have run: "?r = (fst ?r, fst (snd ?r), Inr (projr (snd (snd ?r))))"
    by (cases "snd (snd ?r)") (simp_all add: prod_eq_iff)
  have fp: "issue_fingerprint (md5 example_services) (pod_name example_pod)
              (classify example_pod (obs_logs example_pod)) = Some ?key"
    by code_simp
  have pos: "stamps_positive ?s0" by (simp add: stamps_positive_def)
  have clock: "clock_positive (clk example_services)"
    by (simp add: example_services_def clock_positive_def add_pos_nonneg)
  from dispatch_idempotent_within_ttl [OF run pos clock fp] obtain t
    where t: "sent_alerts (fst (snd ?r)) ?key = Some t"
      and imp: "clk example_services (clock_reads (fst (snd ?r))) - t \<le> ALERT_TTL_SECONDS \<longrightarrow>
                fst (dispatch_pod example_services example_pod (fst (snd ?r))) = []"
    by blast
  have "sent_alerts (fst (snd ?r)) ?key = Some 1000" by code_simp
  with t have "t = 1000" by simp
  moreover have "clk example_services (clock_reads (fst (snd ?r))) = 1010" by code_simp
  ultimately show ?thesis using imp by (simp add: ALERT_TTL_SECONDS_def)
qed

text \<open>C7. A failed analysis or mail is not recorded: when the dispatch raises, the
  exception is the analysis or the mail failure, \<open>sent_alerts\<close> is as before, and
  for an issue never alerted the next dispatch of the same pod asks the analysis
  service again with the same context.\<close>

theorem dispatch_failure_retried:
  assumes run: "dispatch_pod sv p s = (es, s1, Inl e)"
    and fp: "issue_fingerprint (md5 sv) (pod_name p) (classify p (obs_logs p)) = Some key"
    and fresh: "sent_alerts s key = None"
  shows "sent_alerts s1 = sent_alerts s \<and> (e = AIError \<or> e = MailError) \<and>
         (\<exists>ctx. hd es = AskAI ctx \<and> hd (fst (dispatch_pod sv p s1)) = AskAI ctx)"
proof -
  from dispatch_pod_Inl [OF run] have tbl: "sent_alerts s1 = sent_alerts s" and err: "e = AIError \<or> e = MailError"
    by simp_all
  obtain ctx out where d: "\<And>s' :: 'a monitor_scheme. dispatch_pod sv p s' = lift_report (alert_or_suppress sv key (pod_name p) (\<lambda>n. ask_ai sv n ctx) s') key out"
    using fp by (rule dispatch_pod_via_alert) blast+
  from fresh tbl have fresh1: "sent_alerts s1 key = None" by simp
  from run d [of s] have "fst (alert_or_suppress sv key (pod_name p) (\<lambda>n. ask_ai sv n ctx) s) = es"
    by (metis fst_conv lift_report_fst(1))
  with alert_or_suppress_fresh_asks [OF fresh, of sv "pod_name p" ctx]
  have "hd es = AskAI ctx" by auto
  moreover from alert_or_suppress_fresh_asks [OF fresh1, of sv "pod_name p" ctx] d [of s1]
  have "hd (fst (dispatch_pod sv p s1)) = AskAI ctx" by auto
  ultimately show ?thesis using tbl err by blast
qed

lemma dispatch_failure_retried_witness:
  "snd (snd (dispatch_pod (example_services\<lparr>ai := (\<lambda>n c. None)\<rparr>) example_pod
                \<lparr>sent_alerts = Map.empty, clock_reads = 0\<rparr>)) = Inl AIError \<and>
   hd (fst (dispatch_pod (example_services\<lparr>ai := (\<lambda>n c. None)\<rparr>) example_pod
            (fst (snd (dispatch_pod (example_services\<lparr>ai := (\<lambda>n c. None)\<rparr>) example_pod
                         \<lparr>sent_alerts = Map.empty, clock_reads = 0\<rparr>))))) =
   hd (fst (dispatch_pod (example_services\<lparr>ai := (\<lambda>n c. None)\<rparr>) example_pod
              \<lparr>sent_alerts = Map.empty, clock_reads = 0\<rparr>))"
proof -
  let ?sv = "example_services\<lparr>ai := (\<lambda>n c. None)\<rparr>"
  let ?s0 = "\<lparr>sent_alerts = Map.empty, clock_reads = 0\<rparr>"
  let ?r = "dispatch_pod ?sv example_pod ?s0"
  let ?key = "issue_key ''web'' ''ImagePullBackOff'' ''rate limited''"
  have e: "snd (snd ?r) = Inl AIError" by code_simp
  then have run: "?r = (fst ?r, fst (snd ?r), Inl AIError)" by (simp add: prod_eq_iff)
  have fp: "issue_fingerprint (md5 ?sv) (pod_name example_pod) (classify example_pod (obs_logs example_pod)) = Some ?key"
    by code_simp
  have fresh: "sent_alerts ?s0 ?key = None" by simp
  from dispatch_failure_retried [OF run fp fresh] e show ?thesis by auto
qed

text \<open>C9. The lookups \<open>sent_alerts[key]\<close> of the report never raise: a dispatch that
  raises does so only from the analysis service or the mail server.\<close>

theorem dispatch_never_key_error:
  "snd (snd (dispatch_pod sv p s)) \<noteq> Inl (KeyError k)"
proof
  assume "snd (snd (dispatch_pod sv p s)) = Inl (KeyError k)"
  then have "dispatch_pod sv p s = (fst (dispatch_pod sv p s), fst (snd (dispatch_pod sv p s)), Inl (KeyError k))"
    by (simp add: prod_eq_iff)
  from dispatch_pod_Inl [OF this] show False by simp
qed

text \<open>C10. The side effects of an alert come in the code's order: a dispatch that returns
  normally and has any effect asked the analysis service once, mailed its answer with the
  subject \<open>Issue in pod <name>\<close>, and only then stored the clock reading of that
  moment under the issue's fingerprint.\<close>

theorem dispatch_alert_sequence:
  assumes run: "dispatch_pod sv p s = (es, s1, Inr out)" and eff: "es \<noteq> []"
  shows "\<exists>key ctx fb n. issue_fingerprint (md5 sv) (pod_name p) (classify p (obs_logs p)) = Some key \<and>
           es = [AskAI ctx, SendMail (''Issue in pod '' @ pod_name p) fb] \<and>
           ai sv n ctx = Some fb \<and> smtp sv n (''Issue in pod '' @ pod_name p) fb \<and>
           sent_alerts s1 = (sent_alerts s)(key \<mapsto> clk sv n)"
proof (cases "issue_fingerprint (md5 sv) (pod_name p) (classify p (obs_logs p))")
  case None
  with run eff show ?thesis by (simp add: issue_fingerprint_None dispatch_pod_healthy)
next
  case (Some key)
  then obtain ctx out' where d: "dispatch_pod sv p s = lift_report (alert_or_suppress sv key (pod_name p) (\<lambda>n. ask_ai sv n ctx) s) key out'"
    by (rule dispatch_pod_via_alert) blast+
  from run d have "lift_report (alert_or_suppress sv key (pod_name p) (\<lambda>n. ask_ai sv n ctx) s) key out' = (es, s1, Inr out)"
    by simp
  then obtain fb0 where a: "alert_or_suppress sv key (pod_name p) (\<lambda>n. ask_ai sv n ctx) s = (es, s1, Inr fb0)"
    by (blast dest: lift_report_Inr)
  then show ?thesis
  proof (cases rule: alert_or_suppress_cases)
    case (alerted s' fb)
    from should_send_alert_state [OF alerted(1)] have "sent_alerts s' = sent_alerts s" by simp
    with alerted(5) have "sent_alerts s1 = (sent_alerts s)(key \<mapsto> clk sv (clock_reads s'))" by simp
    with Some alerted(2,3,4) show ?thesis by blast
  next
    case (suppressed s' t)
    with eff show ?thesis by simp
  qed simp_all
qed

lemma dispatch_alert_sequence_witness:
  "\<exists>key n. sent_alerts (fst (snd (dispatch_pod example_services example_pod
                        \<lparr>sent_alerts = Map.empty, clock_reads = 0\<rparr>))) = [key \<mapsto> clk example_services n]"
proof -
  let ?s0 = "\<lparr>sent_alerts = Map.empty, clock_reads = 0\<rparr>"
  let ?r = "dispatch_pod example_services example_pod ?s0"
  have ok: "\<not> isl (snd (snd ?r))" by code_simp
  then have run: "?r = (fst ?r, fst (snd ?r), Inr (projr (snd (snd ?r))))"
    by (cases "snd (snd ?r)") (simp_all add: prod_eq_iff)
  have eff: "fst ?r \<noteq> []" by code_simp
  from dispatch_alert_sequence [OF run eff] show ?thesis by auto
qed

text \<open>C14. On the log branch of \<open>dashboard_data\<close> the early return of
  \<open>analyze_logs\<close> (\<open>"No critical errors or exceptions found in logs."\<close>) is dead
  code: the log has an error signal, so the excerpt is not blank and the analysis service
  is always asked, with the excerpt the verdict carries.\<close>

theorem log_branch_always_asks:
  assumes "classify p logs = ErrorInLogs trimmed"
  shows "analyze_logs sv n logs manifest =
           ask_ai sv n (with_manifest (''Analyze these logs and suggest fixes:'' @ [LF] @ trimmed)
                                      ''Here is the full pod manifest:'' manifest)"
  using classify_cases(2) [OF assms] by (simp add: analyze_logs_asks)

lemma log_branch_always_asks_witness:
  "classify \<lparr>pod_name = ''api'', pod_phase = ''Running'', pod_container_statuses = []\<rparr> ''ok\<newline>Fatal ERROR'' =
     ErrorInLogs ''Fatal ERROR'' \<and>
   fst (analyze_logs example_services 0 ''ok\<newline>Fatal ERROR'' []) =
     [AskAI (''Analyze these logs and suggest fixes:'' @ [LF] @ ''Fatal ERROR'')]"
proof -
  have c: "classify \<lparr>pod_name = ''api'', pod_phase = ''Running'', pod_container_statuses = []\<rparr> ''ok\<newline>Fatal ERROR'' =
     ErrorInLogs ''Fatal ERROR''" by code_simp
  from log_branch_always_asks [OF c, of example_services 0 "[]"] c
  show ?thesis by (simp add: ask_ai_def with_manifest_def)
qed



text \<open>C25. Waiting state takes priority over the logs: for a blocked pod the dispatch,
  its effects, the alert table and the report, do not depend on the pod's logs.\<close>

theorem blocked_dispatch_ignores_logs:
  assumes "is_blocked (pod_phase p) (fst (first_waiting (pod_container_statuses p)))"
  shows "dispatch_pod sv (p\<lparr>obs_logs := logs\<rparr>) s = dispatch_pod sv p s"
proof -
  have c1: "classify (p\<lparr>obs_logs := logs\<rparr>) logs =
      Blocked (fst (first_waiting (pod_container_statuses p))) (snd (first_waiting (pod_container_statuses p)))"
    using classify_blocked [of "p\<lparr>obs_logs := logs\<rparr>" logs] assms by simp
  have c2: "classify p (obs_logs p) =
      Blocked (fst (first_waiting (pod_container_statuses p))) (snd (first_waiting (pod_container_statuses p)))"
    using classify_blocked [OF assms] .
  have n: "pod_name (p\<lparr>obs_logs := logs\<rparr>) = pod_name p" and o: "obs_manifest (p\<lparr>obs_logs := logs\<rparr>) = obs_manifest p"
    and l: "obs_logs (p\<lparr>obs_logs := logs\<rparr>) = logs" by simp_all
  have m: "mk_row (p\<lparr>obs_logs := logs\<rparr>) = mk_row p" by (simp add: mk_row_def pod_restarts_def fun_eq_iff)
  show ?thesis unfolding dispatch_pod_def l c1 c2 n m o by simp
qed

lemma blocked_dispatch_ignores_logs_witness:
  "dispatch_pod example_services (example_pod\<lparr>obs_logs := ''panic: fatal error''\<rparr>) \<lparr>sent_alerts = Map.empty, clock_reads = 0\<rparr> =
   dispatch_pod example_services example_pod \<lparr>sent_alerts = Map.empty, clock_reads = 0\<rparr>"
proof -
  have b: "is_blocked (pod_phase example_pod) (fst (first_waiting (pod_container_statuses example_pod)))"
    by code_simp
  from blocked_dispatch_ignores_logs [OF b] show ?thesis .
qed

text \<open>C22. An entry stored at the epoch (\<open>0.0\<close>) never suppresses: \<open>if not last_sent\<close>
  (line 97) takes the falsy \<open>0.0\<close> for a missing entry, so whatever the clock reads,
  every dispatch of a pod whose issue has that entry asks the analysis service again
  and goes on to mail.\<close>

theorem zero_stamp_not_suppressing:
  assumes "issue_fingerprint (md5 sv) (pod_name p) (classify p (obs_logs p)) = Some key"
    and "sent_alerts s key = Some 0"
  shows "\<exists>ctx rest. fst (dispatch_pod sv p s) = AskAI ctx # rest"
proof -
  obtain ctx out where d: "dispatch_pod sv p s = lift_report (alert_or_suppress sv key (pod_name p) (\<lambda>n. ask_ai sv n ctx) s) key out"
    using assms(1) by (rule dispatch_pod_via_alert) blast+
  from alert_or_suppress_asks [OF should_send_alert_zero [OF assms(2)], where sv = sv and name = "pod_name p" and ctx = ctx] d
  show ?thesis by auto
qed

lemma zero_stamp_not_suppressing_witness:
  "\<exists>ctx rest. fst (dispatch_pod example_services example_pod
      \<lparr>sent_alerts = [issue_key ''web'' ''ImagePullBackOff'' ''rate limited'' \<mapsto> 0], clock_reads = 5\<rparr>) = AskAI ctx # rest"
proof -
  have fp: "issue_fingerprint (md5 example_services) (pod_name example_pod) (classify example_pod (obs_logs example_pod)) =
            Some (issue_key ''web'' ''ImagePullBackOff'' ''rate limited'')" by code_simp
  show ?thesis by (rule zero_stamp_not_suppressing [OF fp]) simp
qed

end
