(* ===== verification/Scan.thy ===== *)
theory Scan
  imports Dispatcher
begin

text \<open>
  The cluster scan: the route \<open>dashboard_data\<close> of \<open>src/eks.py\<close> (lines 109--204)
  as a loop over the pods of one namespace, and the route \<open>health\<close>
  (lines 206--213). The pod list is what \<open>get_pods\<close> returns; a failing
  \<open>kubectl\<close> is \<open>None\<close>, which \<open>get_pods\<close> turns into the empty list, while
  \<open>get_namespaces\<close> (lines 22--25) raises on it, an exception \<open>health\<close> catches. An exception
  of one pod's dispatch leaves the loop: the whole request fails, and the alerts already
  recorded for the pods before it stay in \<open>sent_alerts\<close>.
\<close>

type_synonym cluster = "string \<Rightarrow> pod_obs list option"

fun scan_pods ::
  "services \<Rightarrow> 'b pod_obs_scheme list \<Rightarrow> 'a monitor_scheme \<Rightarrow>
   effect list \<times> 'a monitor_scheme \<times> (error + pod_row list \<times> diagnostic list)" where
  "scan_pods sv [] s = ([], s, Inr ([], []))"
| "scan_pods sv (p # ps) s =
     (case dispatch_pod sv p s of
        (es, s1, Inl e) \<Rightarrow> (es, s1, Inl e)
      | (es, s1, Inr (row, d)) \<Rightarrow>
          (case scan_pods sv ps s1 of
             (es2, s2, Inl e) \<Rightarrow> (es @ es2, s2, Inl e)
           | (es2, s2, Inr (rows, ds)) \<Rightarrow>
               (es @ es2, s2, Inr (row # rows, (case d of None \<Rightarrow> [] | Some x \<Rightarrow> [x]) @ ds))))"

definition get_pods :: "cluster \<Rightarrow> string \<Rightarrow> pod_obs list" where
  \<comment> \<open>lines 27--32: \<open>CalledProcessError\<close> gives \<open>[]\<close>\<close>
  "get_pods cluster ns = (case cluster ns of None \<Rightarrow> [] | Some ps \<Rightarrow> ps)"

definition select_namespace :: "string option \<Rightarrow> string \<Rightarrow> string" where
  \<comment> \<open>line 111: \<open>request.args.get("namespace") or DEFAULT_NAMESPACE\<close>\<close>
  "select_namespace arg fallback = (case arg of None \<Rightarrow> fallback | Some a \<Rightarrow> if a = [] then fallback else a)"

definition dashboard_data ::
  "services \<Rightarrow> cluster \<Rightarrow> string \<Rightarrow> string option \<Rightarrow> 'a monitor_scheme \<Rightarrow>
   effect list \<times> 'a monitor_scheme \<times> (error + pod_row list \<times> diagnostic list)" where
  "dashboard_data sv cluster default_ns arg s = scan_pods sv (get_pods cluster (select_namespace arg default_ns)) s"

datatype kube_error = KubectlOutputInvalid   \<comment> \<open>\<open>json.loads\<close> of an empty or invalid stdout raises\<close>

definition get_namespaces :: "string list option \<Rightarrow> kube_error + string list" where
  \<comment> \<open>lines 22--25: no \<open>check=True\<close> and no handler; a failing \<open>kubectl\<close> (\<open>None\<close>)
      leaves stdout empty and \<open>json.loads\<close> raises\<close>
  "get_namespaces listing = (case listing of None \<Rightarrow> Inl KubectlOutputInvalid | Some nss \<Rightarrow> Inr nss)"

datatype health_status = HealthOK nat nat | HealthError

definition health :: "string list option \<Rightarrow> cluster \<Rightarrow> health_status" where
  \<comment> \<open>lines 206--213: the exception of \<open>get_namespaces()\<close> is caught into the error status\<close>
  "health listing cluster =
     (case get_namespaces listing of
        Inl _ \<Rightarrow> HealthError
      | Inr nss \<Rightarrow> HealthOK (length nss) (sum_list (map (\<lambda>ns. length (get_pods cluster ns)) nss)))"

subsection \<open>Lemmas on scans\<close>

lemma scan_pods_append:
  "scan_pods sv (ps @ qs) s =
     (case scan_pods sv ps s of
        (es, s1, Inl e) \<Rightarrow> (es, s1, Inl e)
      | (es, s1, Inr (rows, ds)) \<Rightarrow>
          (case scan_pods sv qs s1 of
             (es2, s2, Inl e) \<Rightarrow> (es @ es2, s2, Inl e)
           | (es2, s2, Inr (rows2, ds2)) \<Rightarrow> (es @ es2, s2, Inr (rows @ rows2, ds @ ds2))))"
proof (induction ps arbitrary: s)
  case Nil
  then show ?case by (simp split: prod.splits sum.splits)
next
  case (Cons p ps)
  then show ?case by (simp split: prod.splits sum.splits)
qed

lemma dispatch_pod_row_name:
  "dispatch_pod sv p s = (es, s', Inr (row, d)) \<Longrightarrow> row_name row = pod_name p"
  by (auto simp: dispatch_pod_def mk_row_def Let_def split: verdict.splits prod.splits sum.splits option.splits)

lemma dispatch_pod_dom_mono:
  "dom (sent_alerts s) \<subseteq> dom (sent_alerts (fst (snd (dispatch_pod sv p s))))"
  using dispatch_pod_table [of sv p s] by auto

lemma scan_pods_Cons_state:
  "dispatch_pod sv p s = (es, s1, r) \<Longrightarrow>
   fst (snd (scan_pods sv (p # ps) s)) = (case r of Inl _ \<Rightarrow> s1 | Inr _ \<Rightarrow> fst (snd (scan_pods sv ps s1)))"
  by (auto split: prod.splits sum.splits)

lemma scan_pods_preserves:
  fixes ps :: "'b pod_obs_scheme list"
  assumes step: "\<And>s (p :: 'b pod_obs_scheme). P s \<Longrightarrow> P (fst (snd (dispatch_pod sv p s)))"
  shows "P s \<Longrightarrow> P (fst (snd (scan_pods sv ps s)))"
proof (induction ps arbitrary: s)
  case Nil
  then show ?case by simp
next
  case (Cons p ps)
  obtain es s1 r where d: "dispatch_pod sv p s = (es, s1, r)" by (cases "dispatch_pod sv p s") auto
  from step [OF Cons.prems, of p] d have "P s1" by simp
  with Cons.IH [of s1] scan_pods_Cons_state [OF d, of ps] show ?case by (simp split: sum.splits)
qed

lemma scan_pods_dom_mono: "dom (sent_alerts s) \<subseteq> dom (sent_alerts (fst (snd (scan_pods sv ps s))))"
  using scan_pods_preserves [where P = "\<lambda>s'. dom (sent_alerts s) \<subseteq> dom (sent_alerts s')"]
    dispatch_pod_dom_mono by blast

lemma scan_pods_stamps_positive:
  "stamps_positive s \<Longrightarrow> clock_positive (clk sv) \<Longrightarrow> stamps_positive (fst (snd (scan_pods sv ps s)))"
  using scan_pods_preserves [where P = stamps_positive] dispatch_pod_stamps_positive by blast

lemma dispatch_pod_Inr_key:
  assumes run: "dispatch_pod sv p s = (es, s', Inr x)"
    and fp: "issue_fingerprint (md5 sv) (pod_name p) (classify p (obs_logs p)) = Some key"
  shows "key \<in> dom (sent_alerts s')"
proof -
  obtain ctx out where d: "dispatch_pod sv p s = lift_report (alert_or_suppress sv key (pod_name p) (\<lambda>n. ask_ai sv n ctx) s) key out"
    using fp by (rule dispatch_pod_via_alert) blast+
  from run d have "lift_report (alert_or_suppress sv key (pod_name p) (\<lambda>n. ask_ai sv n ctx) s) key out = (es, s', Inr x)"
    by simp
  then obtain fb where "alert_or_suppress sv key (pod_name p) (\<lambda>n. ask_ai sv n ctx) s = (es, s', Inr fb)"
    by (blast dest: lift_report_Inr)
  from alert_or_suppress_Inr_present [OF this] show ?thesis by auto
qed

lemma scan_pods_keys_recorded:
  "scan_pods sv ps s = (es, s1, Inr r) \<Longrightarrow> p \<in> set ps \<Longrightarrow>
   issue_fingerprint (md5 sv) (pod_name p) (classify p (obs_logs p)) = Some key \<Longrightarrow>
   key \<in> dom (sent_alerts s1)"
proof (induction ps arbitrary: s es r)
  case Nil
  then show ?case by simp
next
  case (Cons q ps)
  obtain es0 s0 r0 where d: "dispatch_pod sv q s = (es0, s0, r0)" by (cases "dispatch_pod sv q s") auto
  from Cons.prems(1) d obtain x where r0: "r0 = Inr x" by (cases r0) auto
  from Cons.prems(1) d r0 obtain es2 r2 where rest: "scan_pods sv ps s0 = (es2, s1, Inr r2)"
    by (auto split: prod.splits sum.splits)
  show ?case
  proof (cases "p = q")
    case True
    with d r0 Cons.prems(3) have "key \<in> dom (sent_alerts s0)"
      using dispatch_pod_Inr_key by blast
    with scan_pods_dom_mono [of s0 sv ps] rest show ?thesis by auto
  next
    case False
    with Cons.prems(2) have "p \<in> set ps" by simp
    from Cons.IH [OF rest this Cons.prems(3)] show ?thesis .
  qed
qed

lemma scan_pods_all_suppressed:
  assumes keys: "\<forall>p \<in> set ps. \<forall>key. issue_fingerprint (md5 sv) (pod_name p) (classify p (obs_logs p)) = Some key
                    \<longrightarrow> key \<in> dom T"
    and pos: "\<forall>t \<in> ran T. 0 < t"
    and win: "\<forall>n \<ge> N. \<forall>t \<in> ran T. clk sv n - t \<le> ALERT_TTL_SECONDS"
  shows "sent_alerts s = T \<Longrightarrow> N \<le> clock_reads s \<Longrightarrow>
         fst (scan_pods sv ps s) = [] \<and> sent_alerts (fst (snd (scan_pods sv ps s))) = T \<and>
         \<not> isl (snd (snd (scan_pods sv ps s)))"
  using keys
proof (induction ps arbitrary: s)
  case Nil
  then show ?case by simp
next
  case (Cons p ps)
  have "\<exists>s'. dispatch_pod sv p s = ([], s', Inr (fst (projr (snd (snd (dispatch_pod sv p s)))),
                                                  snd (projr (snd (snd (dispatch_pod sv p s)))))) \<and>
              sent_alerts s' = T \<and> N \<le> clock_reads s'"
  proof (cases "issue_fingerprint (md5 sv) (pod_name p) (classify p (obs_logs p))")
    case None
    with Cons.prems(1,2) show ?thesis by (simp add: issue_fingerprint_None dispatch_pod_healthy)
  next
    case (Some key)
    with Cons.prems(3) obtain t where t: "T key = Some t" by auto
    with pos have "0 < t" by (auto simp: ran_def)
    from t win Cons.prems(2) have w: "clk sv (clock_reads s) - t \<le> ALERT_TTL_SECONDS" by (auto simp: ran_def)
    obtain ctx out where d: "dispatch_pod sv p s = lift_report (alert_or_suppress sv key (pod_name p) (\<lambda>n. ask_ai sv n ctx) s) key out"
      using Some by (rule dispatch_pod_via_alert) blast+
    from alert_or_suppress_suppressed [of s key t sv "pod_name p" "\<lambda>n. ask_ai sv n ctx"] t \<open>0 < t\<close> w Cons.prems(1)
    have "alert_or_suppress sv key (pod_name p) (\<lambda>n. ask_ai sv n ctx) s =
            ([], s\<lparr>clock_reads := Suc (clock_reads s)\<rparr>, Inr (PreviouslyReported t))" by simp
    with d Cons.prems(1,2) show ?thesis by (simp add: lift_report_def)
  qed
  then obtain s' where d: "dispatch_pod sv p s = ([], s', Inr (fst (projr (snd (snd (dispatch_pod sv p s)))),
                                                  snd (projr (snd (snd (dispatch_pod sv p s))))))"
      and s': "sent_alerts s' = T" "N \<le> clock_reads s'" by blast
  from Cons.IH [OF s'] Cons.prems(3) d show ?case
    by (auto split: prod.splits sum.splits)
qed

lemma scan_pods_Cons_InrE:
  assumes "scan_pods sv (p # ps) s = (es, s', Inr (rows, ds))"
  obtains es0 s0 row dg es2 rows2 ds2 where "dispatch_pod sv p s = (es0, s0, Inr (row, dg))"
    and "scan_pods sv ps s0 = (es2, s', Inr (rows2, ds2))"
    and "rows = row # rows2" and "ds = (case dg of None \<Rightarrow> [] | Some x \<Rightarrow> [x]) @ ds2"
proof -
  obtain es0 s0 r0 where d: "dispatch_pod sv p s = (es0, s0, r0)" by (cases "dispatch_pod sv p s") auto
  from assms d obtain row dg where r0: "r0 = Inr (row, dg)" by (cases r0) (auto split: prod.splits)
  from assms d r0 obtain es2 rows2 ds2 where "scan_pods sv ps s0 = (es2, s', Inr (rows2, ds2))"
      and "rows = row # rows2" and "ds = (case dg of None \<Rightarrow> [] | Some x \<Rightarrow> [x]) @ ds2"
    by (auto split: prod.splits sum.splits)
  with d r0 that show ?thesis by blast
qed

lemma dispatch_pod_row_names:
  "scan_pods sv ps s = (es, s', Inr (rows, ds)) \<Longrightarrow> map row_name rows = map pod_name ps"
proof (induction ps arbitrary: s es rows ds)
  case (Cons p ps)
  from Cons.prems show ?case
    by (rule scan_pods_Cons_InrE) (auto dest: Cons.IH dispatch_pod_row_name)
qed simp


lemma scan_pods_ran:
  "ran (sent_alerts (fst (snd (scan_pods sv ps s)))) \<subseteq> ran (sent_alerts s) \<union> range (clk sv)"
proof (rule scan_pods_preserves [where P = "\<lambda>s'. ran (sent_alerts s') \<subseteq> ran (sent_alerts s) \<union> range (clk sv)"])
  fix s' :: "'a monitor_scheme" and p :: "'b pod_obs_scheme"
  assume h: "ran (sent_alerts s') \<subseteq> ran (sent_alerts s) \<union> range (clk sv)"
  from dispatch_pod_table [of sv p s']
  have "ran (sent_alerts (fst (snd (dispatch_pod sv p s')))) \<subseteq> ran (sent_alerts s') \<union> range (clk sv)"
    by (auto simp: ran_def split: if_splits)
  with h show "ran (sent_alerts (fst (snd (dispatch_pod sv p s')))) \<subseteq> ran (sent_alerts s) \<union> range (clk sv)"
    by blast
qed simp

lemma alert_or_suppress_feedback:
  "alert_or_suppress sv key name analyze s = (es, s', Inr fb) \<Longrightarrow> fb \<noteq> NoCriticalIssues"
  by (auto simp: alert_or_suppress_def split: prod.splits if_splits sum.splits option.splits)

lemma dispatch_pod_row_wf:
  assumes "dispatch_pod sv p s = (es, s', Inr (row, d))"
  shows "row_wf row"
proof (cases "classify p (obs_logs p)")
  case (Blocked reason message)
  with assms show ?thesis
    by (auto simp: dispatch_pod_def row_wf_def mk_row_def Let_def dest: alert_or_suppress_feedback
             split: prod.splits sum.splits option.splits)
next
  case (ErrorInLogs t)
  with assms show ?thesis
    by (auto simp: dispatch_pod_def row_wf_def mk_row_def Let_def dest: alert_or_suppress_feedback
             split: prod.splits sum.splits option.splits)
next
  case Healthy
  with assms show ?thesis by (auto simp: dispatch_pod_def row_wf_def mk_row_def)
qed

lemma scan_pods_all_healthy:
  "\<forall>p \<in> set ps. classify p (obs_logs p) = Healthy \<Longrightarrow>
   scan_pods sv ps s = ([], s, Inr (map (\<lambda>p. mk_row p ''#d4edda'' CheckMark NoCriticalIssues) ps, []))"
  by (induction ps) (simp_all add: dispatch_pod_healthy)

subsection \<open>Properties of the scan\<close>

text \<open>C2. Idempotence of a whole scan: after a scan of a namespace returned a report,
  scanning the same pods again while every clock reading stays within the TTL of every
  entry of \<open>sent_alerts\<close> asks nothing of the analysis service, sends no mail,
  changes no entry and again returns a report.\<close>

theorem rescan_within_ttl_silent:
  assumes run: "scan_pods sv ps s = (es, s1, Inr r)"
    and pos: "stamps_positive s" and clock: "clock_positive (clk sv)"
    and win: "\<forall>n \<ge> clock_reads s1. \<forall>t \<in> ran (sent_alerts s1). clk sv n - t \<le> ALERT_TTL_SECONDS"
  shows "fst (scan_pods sv ps s1) = [] \<and> sent_alerts (fst (snd (scan_pods sv ps s1))) = sent_alerts s1 \<and>
         \<not> isl (snd (snd (scan_pods sv ps s1)))"
proof -
  have keys: "\<forall>p \<in> set ps. \<forall>key. issue_fingerprint (md5 sv) (pod_name p) (classify p (obs_logs p)) = Some key
                 \<longrightarrow> key \<in> dom (sent_alerts s1)"
    using scan_pods_keys_recorded [OF run] by blast
  from scan_pods_stamps_positive [OF pos clock, of ps] run have "stamps_positive s1" by simp
  then have "\<forall>t \<in> ran (sent_alerts s1). 0 < t" by (simp add: stamps_positive_def)
  from scan_pods_all_suppressed [OF keys this win, of s1] show ?thesis by simp
qed

lemma rescan_within_ttl_silent_witness:
  "fst (scan_pods (example_services\<lparr>clk := (\<lambda>n. 1000 + 10 * real (min n 5))\<rparr>) [example_pod]
         (fst (snd (scan_pods (example_services\<lparr>clk := (\<lambda>n. 1000 + 10 * real (min n 5))\<rparr>) [example_pod]
                      \<lparr>sent_alerts = Map.empty, clock_reads = 0\<rparr>)))) = []"
proof -
  let ?sv = "example_services\<lparr>clk := (\<lambda>n. 1000 + 10 * real (min n 5))\<rparr>"
  let ?s0 = "\<lparr>sent_alerts = Map.empty, clock_reads = 0\<rparr>"
  let ?r = "scan_pods ?sv [example_pod] ?s0"
  have ok: "\<not> isl (snd (snd ?r))" by code_simp
  then have run: "?r = (fst ?r, fst (snd ?r), Inr (projr (snd (snd ?r))))"
    by (cases "snd (snd ?r)") (simp_all add: prod_eq_iff)
  have pos: "stamps_positive ?s0" by (simp add: stamps_positive_def)
  have clock: "clock_positive (clk ?sv)" by (simp add: clock_positive_def add_pos_nonneg)
  have rng: "ran (sent_alerts (fst (snd ?r))) \<subseteq> range (clk ?sv)"
    using scan_pods_ran [of ?sv "[example_pod]" ?s0] by simp
  have "\<forall>n m. clk ?sv n - clk ?sv m \<le> ALERT_TTL_SECONDS"
  proof (intro allI)
    fix n m :: nat
    have "real (min n 5) \<le> 5" "0 \<le> real (min m 5)" by simp_all
    then show "clk ?sv n - clk ?sv m \<le> ALERT_TTL_SECONDS" by (simp add: ALERT_TTL_SECONDS_def)
  qed
  with rng have win: "\<forall>n \<ge> clock_reads (fst (snd ?r)). \<forall>t \<in> ran (sent_alerts (fst (snd ?r))).
                        clk ?sv n - t \<le> ALERT_TTL_SECONDS" by blast
  from rescan_within_ttl_silent [OF run pos clock win] show ?thesis by simp
qed

text \<open>C15. The report lists one row per pod, in the order \<open>get_pods\<close> returned the
  pods.\<close>

theorem scan_rows_in_pod_order:
  assumes "scan_pods sv ps s = (es, s', Inr (rows, ds))"
  shows "map row_name rows = map pod_name ps"
  using assms by (rule dispatch_pod_row_names)

lemma scan_rows_in_pod_order_witness:
  "map row_name (fst (projr (snd (snd (scan_pods example_services [example_pod]
      \<lparr>sent_alerts = Map.empty, clock_reads = 0\<rparr>))))) = [''web'']"
proof -
  let ?r = "scan_pods example_services [example_pod] \<lparr>sent_alerts = Map.empty, clock_reads = 0\<rparr>"
  have ok: "\<not> isl (snd (snd ?r))" by code_simp
  then have run: "?r = (fst ?r, fst (snd ?r), Inr (fst (projr (snd (snd ?r))), snd (projr (snd (snd ?r)))))"
    by (cases "snd (snd ?r)") (simp_all add: prod_eq_iff)
  from scan_rows_in_pod_order [OF run] show ?thesis by (simp add: example_pod_def)
qed

text \<open>C8. One pod's failure aborts the whole scan: when the analysis or mail call raises
  for a pod, the request fails with that exception, the pods after it are never
  dispatched (no effect of theirs), and the alerts recorded for the pods before it stay in
  \<open>sent_alerts\<close> although their report is lost.\<close>

theorem scan_aborts_on_failure:
  assumes "scan_pods sv ps s = (es, s1, Inr r)"
    and "dispatch_pod sv p s1 = (es', s2, Inl e)"
  shows "scan_pods sv (ps @ p # qs) s = (es @ es', s2, Inl e)"
  using assms by (simp add: scan_pods_append split: prod.splits)

lemma scan_aborts_on_failure_witness:
  "snd (snd (scan_pods (example_services\<lparr>ai := (\<lambda>n c. if n = 0 then Some ''ok'' else None)\<rparr>)
     [example_pod, example_pod\<lparr>pod_name := ''db''\<rparr>, example_pod\<lparr>pod_name := ''cache''\<rparr>]
     \<lparr>sent_alerts = Map.empty, clock_reads = 0\<rparr>)) = Inl AIError"
proof -
  let ?sv = "example_services\<lparr>ai := (\<lambda>n c. if n = 0 then Some ''ok'' else None)\<rparr>"
  let ?s0 = "\<lparr>sent_alerts = Map.empty, clock_reads = 0\<rparr>"
  let ?r = "scan_pods ?sv [example_pod] ?s0"
  let ?p = "example_pod\<lparr>pod_name := ''db''\<rparr>"
  let ?d = "dispatch_pod ?sv ?p (fst (snd ?r))"
  have ok: "\<not> isl (snd (snd ?r))" by code_simp
  then have run: "?r = (fst ?r, fst (snd ?r), Inr (projr (snd (snd ?r))))"
    by (cases "snd (snd ?r)") (simp_all add: prod_eq_iff)
  have "snd (snd ?d) = Inl AIError" by code_simp
  then have fail: "?d = (fst ?d, fst (snd ?d), Inl AIError)" by (simp add: prod_eq_iff)
  from scan_aborts_on_failure [OF run fail, of "[example_pod\<lparr>pod_name := ''cache''\<rparr>]"]
  show ?thesis by simp
qed

text \<open>C21. A namespace whose pods cannot be listed degrades to an empty report: no
  effect, no change of state, no exception.\<close>

theorem dashboard_data_kubectl_failure:
  assumes "cluster (select_namespace arg default_ns) = None"
  shows "dashboard_data sv cluster default_ns arg s = ([], s, Inr ([], []))"
  using assms by (simp add: dashboard_data_def get_pods_def)

lemma dashboard_data_kubectl_failure_witness:
  "(\<lambda>ns. None :: pod_obs list option) (select_namespace None ''default'') = None \<and>
   dashboard_data example_services (\<lambda>ns. None) ''default'' None \<lparr>sent_alerts = Map.empty, clock_reads = 0\<rparr> =
     ([], \<lparr>sent_alerts = Map.empty, clock_reads = 0\<rparr>, Inr ([], []))"
  using dashboard_data_kubectl_failure [where cluster = "\<lambda>ns. None" and arg = None and default_ns = "''default''"
      and sv = example_services and s = "\<lparr>sent_alerts = Map.empty, clock_reads = 0\<rparr>"]
  by simp

text \<open>C28. The diagnostics section lists one entry per pod that is not healthy, so the
  report shows \<open>No errors detected in any pods.\<close> (line 202) exactly when every pod
  of the namespace is healthy.\<close>

theorem scan_diagnostics_unhealthy:
  assumes "scan_pods sv ps s = (es, s', Inr (rows, ds))"
  shows "length ds = length (filter (\<lambda>p. classify p (obs_logs p) \<noteq> Healthy) ps) \<and>
         (ds = [] \<longleftrightarrow> (\<forall>p \<in> set ps. classify p (obs_logs p) = Healthy))"
proof -
  have len: "length ds = length (filter (\<lambda>p. classify p (obs_logs p) \<noteq> Healthy) ps)"
    using assms
  proof (induction ps arbitrary: s es rows ds)
    case (Cons p ps)
    from Cons.prems show ?case
      by (rule scan_pods_Cons_InrE) (auto dest: Cons.IH dispatch_pod_diag split: option.splits)
  qed simp
  then have "ds = [] \<longleftrightarrow> filter (\<lambda>p. classify p (obs_logs p) \<noteq> Healthy) ps = []"
    by (metis length_0_conv)
  with len show ?thesis by (simp add: filter_empty_conv)
qed

lemma scan_diagnostics_unhealthy_witness:
  "length (snd (projr (snd (snd (scan_pods example_services
      [example_pod, example_pod\<lparr>pod_name := ''api'', pod_phase := ''Running'', pod_container_statuses := []\<rparr>]
      \<lparr>sent_alerts = Map.empty, clock_reads = 0\<rparr>))))) = 1"
proof -
  let ?ps = "[example_pod, example_pod\<lparr>pod_name := ''api'', pod_phase := ''Running'', pod_container_statuses := []\<rparr>]"
  let ?r = "scan_pods example_services ?ps \<lparr>sent_alerts = Map.empty, clock_reads = 0\<rparr>"
  have ok: "\<not> isl (snd (snd ?r))" by code_simp
  then have run: "?r = (fst ?r, fst (snd ?r), Inr (fst (projr (snd (snd ?r))), snd (projr (snd (snd ?r)))))"
    by (cases "snd (snd ?r)") (simp_all add: prod_eq_iff)
  have c: "length (filter (\<lambda>p. classify p (obs_logs p) \<noteq> Healthy) ?ps) = 1" by code_simp
  from scan_diagnostics_unhealthy [OF run] c show ?thesis by simp
qed

text \<open>C29. Every row of a report is one of the three kinds the code writes: a yellow
  hourglass, a red cross or a green check mark, and exactly the green rows say
  \<open>No critical issues found.\<close>\<close>

theorem scan_rows_wf:
  "scan_pods sv ps s = (es, s', Inr (rows, ds)) \<Longrightarrow> list_all row_wf rows"
proof (induction ps arbitrary: s es rows ds)
  case (Cons p ps)
  from Cons.prems show ?case
    by (rule scan_pods_Cons_InrE) (auto dest: Cons.IH dispatch_pod_row_wf)
qed simp

lemma scan_rows_wf_witness:
  "list_all row_wf (fst (projr (snd (snd (scan_pods example_services [example_pod]
      \<lparr>sent_alerts = Map.empty, clock_reads = 0\<rparr>)))))"
proof -
  let ?r = "scan_pods example_services [example_pod] \<lparr>sent_alerts = Map.empty, clock_reads = 0\<rparr>"
  have ok: "\<not> isl (snd (snd ?r))" by code_simp
  then have run: "?r = (fst ?r, fst (snd ?r), Inr (fst (projr (snd (snd ?r))), snd (projr (snd (snd ?r)))))"
    by (cases "snd (snd ?r)") (simp_all add: prod_eq_iff)
  from scan_rows_wf [OF run] show ?thesis .
qed

end
