(* ===== verification/Concurrency.thy ===== *)
theory Concurrency
  imports Scan
begin

text \<open>
  Concurrent requests. \<open>app.run(debug=True, ...)\<close> (\<open>src/eks.py\<close>, line 217) serves
  each request on its own thread, and \<open>sent_alerts\<close> is a plain global dictionary
  with no lock. For one issue, a request runs three steps that another request may
  interleave with: the test \<open>should_send_alert(key)\<close> (lines 137 and 162), the
  analysis and mail (lines 138--139 and 163--164; network I/O, during which Python
  switches threads), and the store \<open>sent_alerts[key] = time.time()\<close> (lines 140 and
  165). The analysis and the mail may raise (an AI error, an \<open>smtplib\<close> error); the
  exception leaves the handler before the store, and the request ends with status
  500 (\<open>Failed\<close>). The system state holds the shared monitor state, each request's key and
  program counter, and the mails delivered so far, each tagged with its key. A run starts
  with \<open>n\<close> requests; every request that has not ended can always step, so a run
  stops only when every request has finished or failed.
\<close>

datatype req_pc = AtCheck | AtNotify | AtRecord | Finished | Failed

record conc_state =
  shared :: monitor
  req_key :: "nat \<Rightarrow> fingerprint"
  req_pc :: "nat \<Rightarrow> req_pc"
  mails :: "fingerprint list"

inductive conc_step :: "clock \<Rightarrow> conc_state \<Rightarrow> conc_state \<Rightarrow> bool" for ck where
  check_alert:
    "req_pc s i = AtCheck \<Longrightarrow> should_send_alert ck (shared s) (req_key s i) = (True, m') \<Longrightarrow>
     conc_step ck s (s\<lparr>shared := m', req_pc := (req_pc s)(i := AtNotify)\<rparr>)"
| check_suppress:
    "req_pc s i = AtCheck \<Longrightarrow> should_send_alert ck (shared s) (req_key s i) = (False, m') \<Longrightarrow>
     conc_step ck s (s\<lparr>shared := m', req_pc := (req_pc s)(i := Finished)\<rparr>)"
| notify:
    "req_pc s i = AtNotify \<Longrightarrow>
     conc_step ck s (s\<lparr>mails := mails s @ [req_key s i], req_pc := (req_pc s)(i := AtRecord)\<rparr>)"
| fail:
    \<comment> \<open>the analysis or the mail raises: no mail delivered, nothing stored\<close>
    "req_pc s i = AtNotify \<Longrightarrow>
     conc_step ck s (s\<lparr>req_pc := (req_pc s)(i := Failed)\<rparr>)"
| store:
    "req_pc s i = AtRecord \<Longrightarrow>
     conc_step ck s (s\<lparr>shared := record_alert ck (shared s) (req_key s i), req_pc := (req_pc s)(i := Finished)\<rparr>)"

definition conc_init :: "nat \<Rightarrow> (nat \<Rightarrow> fingerprint) \<Rightarrow> conc_state" where
  \<comment> \<open>\<open>n\<close> requests, numbered below \<open>n\<close>, on the table cleared at start-up (line 216)\<close>
  "conc_init n keys =
     \<lparr>shared = \<lparr>sent_alerts = Map.empty, clock_reads = 0\<rparr>, req_key = keys,
      req_pc = (\<lambda>i. if i < n then AtCheck else Finished), mails = []\<rparr>"

inductive conc_reach :: "clock \<Rightarrow> nat \<Rightarrow> (nat \<Rightarrow> fingerprint) \<Rightarrow> conc_state \<Rightarrow> bool" for ck n keys where
  init: "conc_reach ck n keys (conc_init n keys)"
| step: "conc_reach ck n keys s \<Longrightarrow> conc_step ck s t \<Longrightarrow> conc_reach ck n keys t"

definition recorded_by_finished :: "conc_state \<Rightarrow> bool" where
  \<comment> \<open>every entry of \<open>sent_alerts\<close> was stored by a request that has finished and
      its key has been mailed, and every request past its mail has its key among the mails\<close>
  "recorded_by_finished s \<longleftrightarrow>
     (\<forall>k \<in> dom (sent_alerts (shared s)). \<exists>i. req_key s i = k \<and> req_pc s i = Finished) \<and>
     (\<forall>i. req_pc s i = AtRecord \<longrightarrow> req_key s i \<in> set (mails s)) \<and>
     dom (sent_alerts (shared s)) \<subseteq> set (mails s)"

definition finished_recorded :: "nat \<Rightarrow> conc_state \<Rightarrow> bool" where
  \<comment> \<open>every request that has finished has its issue in \<open>sent_alerts\<close>\<close>
  "finished_recorded n s \<longleftrightarrow> (\<forall>i<n. req_pc s i = Finished \<longrightarrow> req_key s i \<in> dom (sent_alerts (shared s)))"

inductive_cases conc_stepE: "conc_step ck s t"

lemma conc_step_keys: "conc_step ck s t \<Longrightarrow> req_key t = req_key s"
  by (erule conc_stepE) simp_all

lemma conc_reach_keys: "conc_reach ck n keys s \<Longrightarrow> req_key s = keys"
  by (induction rule: conc_reach.induct) (simp_all add: conc_init_def conc_step_keys)

lemma conc_inv_check:
  assumes inv: "recorded_by_finished s" and pc: "req_pc s i \<noteq> Finished"
    and tab: "sent_alerts m' = sent_alerts (shared s)" and p: "p \<noteq> AtRecord"
    and t: "t = s\<lparr>shared := m', req_pc := (req_pc s)(i := p)\<rparr>"
  shows "recorded_by_finished t"
  unfolding recorded_by_finished_def
proof (intro conjI ballI allI impI)
  fix k assume "k \<in> dom (sent_alerts (shared t))"
  with tab t have "k \<in> dom (sent_alerts (shared s))" by simp
  with inv obtain j where "req_key s j = k" "req_pc s j = Finished"
    unfolding recorded_by_finished_def by blast
  with pc t show "\<exists>j. req_key t j = k \<and> req_pc t j = Finished"
    by (intro exI [of _ j]) auto
next
  fix j assume "req_pc t j = AtRecord"
  with inv p t show "req_key t j \<in> set (mails t)"
    unfolding recorded_by_finished_def by (auto split: if_splits)
next
  from inv tab t show "dom (sent_alerts (shared t)) \<subseteq> set (mails t)"
    unfolding recorded_by_finished_def by simp
qed

lemma conc_inv_notify:
  assumes inv: "recorded_by_finished s" and pc: "req_pc s i = AtNotify"
    and t: "t = s\<lparr>mails := mails s @ [req_key s i], req_pc := (req_pc s)(i := AtRecord)\<rparr>"
  shows "recorded_by_finished t"
  unfolding recorded_by_finished_def
proof (intro conjI ballI allI impI)
  fix k assume "k \<in> dom (sent_alerts (shared t))"
  with t have "k \<in> dom (sent_alerts (shared s))" by simp
  with inv obtain j where "req_key s j = k" "req_pc s j = Finished"
    unfolding recorded_by_finished_def by blast
  with pc t show "\<exists>j. req_key t j = k \<and> req_pc t j = Finished"
    by (intro exI [of _ j]) auto
next
  fix j assume "req_pc t j = AtRecord"
  with inv t show "req_key t j \<in> set (mails t)"
    unfolding recorded_by_finished_def by (auto split: if_splits)
next
  from inv t show "dom (sent_alerts (shared t)) \<subseteq> set (mails t)"
    unfolding recorded_by_finished_def by auto
qed

lemma conc_inv_store:
  assumes inv: "recorded_by_finished s" and pc: "req_pc s i = AtRecord"
    and t: "t = s\<lparr>shared := record_alert ck (shared s) (req_key s i), req_pc := (req_pc s)(i := Finished)\<rparr>"
  shows "recorded_by_finished t"
  unfolding recorded_by_finished_def
proof (intro conjI ballI allI impI)
  fix k assume k: "k \<in> dom (sent_alerts (shared t))"
  show "\<exists>j. req_key t j = k \<and> req_pc t j = Finished"
  proof (cases "k = req_key s i")
    case True
    with t show ?thesis by (intro exI [of _ i]) simp
  next
    case False
    with k t have "k \<in> dom (sent_alerts (shared s))" by (simp add: record_alert_table)
    with inv obtain j where "req_key s j = k" "req_pc s j = Finished"
      unfolding recorded_by_finished_def by blast
    with pc t show ?thesis by (intro exI [of _ j]) auto
  qed
next
  fix j assume "req_pc t j = AtRecord"
  with inv t show "req_key t j \<in> set (mails t)"
    unfolding recorded_by_finished_def by (auto split: if_splits)
next
  from inv pc t show "dom (sent_alerts (shared t)) \<subseteq> set (mails t)"
    unfolding recorded_by_finished_def by auto
qed

lemma conc_step_inv:
  assumes "conc_step ck s t" and "recorded_by_finished s"
  shows "recorded_by_finished t"
  using assms(1)
proof (cases rule: conc_step.cases)
  case (check_alert i m')
  then show ?thesis
    using conc_inv_check [OF assms(2), of i m' AtNotify] should_send_alert_state [OF check_alert(3)] by simp
next
  case (check_suppress i m')
  then show ?thesis
    using conc_inv_check [OF assms(2), of i m' Finished] should_send_alert_state [OF check_suppress(3)] by simp
next
  case (notify i)
  then show ?thesis using conc_inv_notify [OF assms(2)] by simp
next
  case (fail i)
  then show ?thesis using conc_inv_check [OF assms(2), of i "shared s" Failed] by simp
next
  case (store i)
  then show ?thesis using conc_inv_store [OF assms(2)] by simp
qed

lemma conc_init_inv: "recorded_by_finished (conc_init n keys)"
  by (simp add: recorded_by_finished_def conc_init_def)

lemma conc_progress: "req_pc s i \<noteq> Finished \<Longrightarrow> req_pc s i \<noteq> Failed \<Longrightarrow> \<exists>t. conc_step ck s t"
proof (cases "req_pc s i")
  case AtCheck
  obtain b m' where sa: "should_send_alert ck (shared s) (req_key s i) = (b, m')" by fastforce
  show ?thesis
  proof (cases b)
    case True
    with sa have "should_send_alert ck (shared s) (req_key s i) = (True, m')" by simp
    from conc_step.check_alert [OF AtCheck this] show ?thesis by (rule exI)
  next
    case False
    with sa have "should_send_alert ck (shared s) (req_key s i) = (False, m')" by simp
    from conc_step.check_suppress [OF AtCheck this] show ?thesis by (rule exI)
  qed
next
  case AtNotify
  from conc_step.notify [OF this] show ?thesis by (rule exI)
next
  case AtRecord
  from conc_step.store [OF this] show ?thesis by (rule exI)
qed simp_all

lemma finished_recorded_step:
  assumes "conc_step ck s t" and "finished_recorded n s"
  shows "finished_recorded n t"
  using assms(1)
proof (cases rule: conc_step.cases)
  case (check_suppress i m')
  from should_send_alert_False_present [of ck "shared s" "req_key s i"] check_suppress(3)
  have "req_key s i \<in> dom (sent_alerts (shared s))" by auto
  moreover from should_send_alert_state [OF check_suppress(3)] have "sent_alerts m' = sent_alerts (shared s)" by simp
  ultimately show ?thesis using assms(2) check_suppress(1) unfolding finished_recorded_def by auto
next
  case (store i)
  with assms(2) show ?thesis unfolding finished_recorded_def by auto
next
  case (check_alert i m')
  from should_send_alert_state [OF check_alert(3)] have "sent_alerts m' = sent_alerts (shared s)" by simp
  with assms(2) check_alert(1) show ?thesis unfolding finished_recorded_def by auto
next
  case (notify i)
  with assms(2) show ?thesis unfolding finished_recorded_def by auto
next
  case (fail i)
  with assms(2) show ?thesis unfolding finished_recorded_def by auto
qed

lemma conc_stuck_ended:
  "\<not> (\<exists>t. conc_step ck s t) \<Longrightarrow> req_pc s i = Finished \<or> req_pc s i = Failed"
  using conc_progress by blast

lemma conc_reach_finished_recorded: "conc_reach ck n keys s \<Longrightarrow> finished_recorded n s"
  by (induction rule: conc_reach.induct) (simp add: finished_recorded_def conc_init_def, blast intro: finished_recorded_step)

subsection \<open>Properties of the interleavings\<close>

text \<open>C5. In every interleaving of requests, every entry of the shared \<open>sent_alerts\<close>
  table was stored by a request that has finished, and no issue is recorded before its
  mail was sent.\<close>
theorem conc_reach_invariant:
  "conc_reach ck n keys s \<Longrightarrow> recorded_by_finished s"
  by (induction rule: conc_reach.induct) (auto intro: conc_init_inv conc_step_inv)

theorem conc_reach_invariant_witness:
  "recorded_by_finished (conc_init 2 (\<lambda>i. ''k''))"
  using conc_reach_invariant [OF conc_reach.init [of "\<lambda>n. 0" 2 "\<lambda>i. ''k''"]] .

text \<open>C6. With no lock around \<open>sent_alerts\<close>, two requests that check the same new
  issue before either records it both send its mail: the duplicate alert the
  suppression window is meant to prevent, whatever the clock.\<close>
theorem concurrent_double_alert:
  "\<exists>s. conc_reach ck 2 (\<lambda>i. k) s \<and> mails s = [k, k] \<and> req_pc s 0 = AtRecord \<and> req_pc s 1 = AtRecord"
proof -
  define s0 where "s0 = conc_init 2 (\<lambda>i. k)"
  define s1 where "s1 = s0\<lparr>shared := shared s0, req_pc := (req_pc s0)(0 := AtNotify)\<rparr>"
  define s2 where "s2 = s1\<lparr>shared := shared s1, req_pc := (req_pc s1)(1 := AtNotify)\<rparr>"
  define s3 where "s3 = s2\<lparr>mails := mails s2 @ [req_key s2 0], req_pc := (req_pc s2)(0 := AtRecord)\<rparr>"
  define s4 where "s4 = s3\<lparr>mails := mails s3 @ [req_key s3 1], req_pc := (req_pc s3)(1 := AtRecord)\<rparr>"
  have r0: "conc_reach ck 2 (\<lambda>i. k) s0" unfolding s0_def by (rule conc_reach.init)
  have "conc_step ck s0 s1" unfolding s1_def
    by (rule conc_step.check_alert) (simp_all add: s0_def conc_init_def should_send_alert_def)
  with r0 have r1: "conc_reach ck 2 (\<lambda>i. k) s1" by (rule conc_reach.step)
  have "conc_step ck s1 s2" unfolding s2_def
    by (rule conc_step.check_alert) (simp_all add: s1_def s0_def conc_init_def should_send_alert_def)
  with r1 have r2: "conc_reach ck 2 (\<lambda>i. k) s2" by (rule conc_reach.step)
  have "conc_step ck s2 s3" unfolding s3_def
    by (rule conc_step.notify) (simp add: s2_def s1_def s0_def conc_init_def)
  with r2 have r3: "conc_reach ck 2 (\<lambda>i. k) s3" by (rule conc_reach.step)
  have "conc_step ck s3 s4" unfolding s4_def
    by (rule conc_step.notify) (simp add: s3_def s2_def s1_def s0_def conc_init_def)
  with r3 have "conc_reach ck 2 (\<lambda>i. k) s4" by (rule conc_reach.step)
  moreover have "mails s4 = [k, k] \<and> req_pc s4 0 = AtRecord \<and> req_pc s4 1 = AtRecord"
    by (simp add: s4_def s3_def s2_def s1_def s0_def conc_init_def)
  ultimately show ?thesis by blast
qed

text \<open>C24. No interleaving deadlocks and none loses an alert: in every reachable state
  where no request can step, every request has ended, finished or failed by an
  exception of the analysis or the mail, and every request that finished, by
  alerting or by being suppressed, has its issue in \<open>sent_alerts\<close>.\<close>
theorem conc_all_finish:
  assumes "conc_reach ck n keys s" and "\<not> (\<exists>t. conc_step ck s t)"
  shows "(\<forall>i. req_pc s i = Finished \<or> req_pc s i = Failed) \<and>
         (\<forall>i<n. req_pc s i = Finished \<longrightarrow> keys i \<in> dom (sent_alerts (shared s)))"
  using conc_stuck_ended [OF assms(2)] conc_reach_finished_recorded [OF assms(1)] conc_reach_keys [OF assms(1)]
  unfolding finished_recorded_def by blast

lemma conc_all_finish_witness:
  "\<exists>s. conc_reach (\<lambda>n. 5) 2 (\<lambda>i. if i = 0 then ''a'' else ''b'') s \<and> \<not> (\<exists>t. conc_step (\<lambda>n. 5) s t) \<and>
       req_pc s 0 = Finished \<and> req_pc s 1 = Failed \<and> ''a'' \<in> dom (sent_alerts (shared s))"
proof -
  let ?ck = "\<lambda>n. 5 :: real" and ?k = "\<lambda>i::nat. if i = 0 then ''a'' else ''b''"
  define s0 where "s0 = conc_init 2 ?k"
  define s1 where "s1 = s0\<lparr>shared := shared s0, req_pc := (req_pc s0)(0 := AtNotify)\<rparr>"
  define s2 where "s2 = s1\<lparr>shared := shared s1, req_pc := (req_pc s1)(1 := AtNotify)\<rparr>"
  define s3 where "s3 = s2\<lparr>mails := mails s2 @ [req_key s2 0], req_pc := (req_pc s2)(0 := AtRecord)\<rparr>"
  define s4 where "s4 = s3\<lparr>req_pc := (req_pc s3)(1 := Failed)\<rparr>"
  define s5 where "s5 = s4\<lparr>shared := record_alert ?ck (shared s4) (req_key s4 0), req_pc := (req_pc s4)(0 := Finished)\<rparr>"
  have r0: "conc_reach ?ck 2 ?k s0" unfolding s0_def by (rule conc_reach.init)
  have "conc_step ?ck s0 s1" unfolding s1_def
    by (rule conc_step.check_alert) (simp_all add: s0_def conc_init_def should_send_alert_def)
  with r0 have r1: "conc_reach ?ck 2 ?k s1" by (rule conc_reach.step)
  have "conc_step ?ck s1 s2" unfolding s2_def
    by (rule conc_step.check_alert) (simp_all add: s1_def s0_def conc_init_def should_send_alert_def)
  with r1 have r2: "conc_reach ?ck 2 ?k s2" by (rule conc_reach.step)
  have "conc_step ?ck s2 s3" unfolding s3_def
    by (rule conc_step.notify) (simp add: s2_def s1_def s0_def conc_init_def)
  with r2 have r3: "conc_reach ?ck 2 ?k s3" by (rule conc_reach.step)
  have "conc_step ?ck s3 s4" unfolding s4_def
    by (rule conc_step.fail) (simp add: s3_def s2_def s1_def s0_def conc_init_def)
  with r3 have r4: "conc_reach ?ck 2 ?k s4" by (rule conc_reach.step)
  have "conc_step ?ck s4 s5" unfolding s5_def
    by (rule conc_step.store) (simp add: s4_def s3_def s2_def s1_def s0_def conc_init_def)
  with r4 have r5: "conc_reach ?ck 2 ?k s5" by (rule conc_reach.step)
  have pcs: "req_pc s5 = (\<lambda>i. if i = 1 then Failed else Finished)"
    by (simp add: s5_def s4_def s3_def s2_def s1_def s0_def conc_init_def fun_eq_iff)
  have stuck: "\<not> (\<exists>t. conc_step ?ck s5 t)"
    by (auto elim: conc_stepE simp: pcs split: if_splits)
  have "(0::nat) < 2" by simp
  with conc_all_finish [OF r5 stuck] have "req_pc s5 0 = Finished \<longrightarrow> ?k 0 \<in> dom (sent_alerts (shared s5))"
    by blast
  then have "''a'' \<in> dom (sent_alerts (shared s5))" by (simp add: pcs)
  with r5 stuck pcs show ?thesis by auto
qed

end
