(* ===== verification/Render.thy ===== *)
theory Render
  imports Scan
begin

text \<open>
  The HTML the route \<open>dashboard_data\<close> returns (\<open>src/eks.py\<close>, lines 144--204): the
  diagnostic blocks of the two issue branches, the table row of every pod and the page
  around them. Each triple-quoted f-string is a newline, its lines with their
  indentation, each ended by a newline, and the indentation of its closing quotes.
  \<open>time.strftime('%Y-%m-%d %H:%M:%S', time.localtime(t))\<close> depends on the time zone
  and is the parameter \<open>fmt\<close>; the status icons are characters above code point 255
  and are the parameter \<open>icon\<close>. \<open>str(restarts)\<close> is \<open>py_str_int\<close>. Nothing is
  escaped: the code inserts every text as it is.
\<close>

definition sp :: "nat \<Rightarrow> string" where
  "sp n = replicate n (CHR '' '')"

definition html_block :: "(nat \<times> string) list \<Rightarrow> nat \<Rightarrow> string" where
  \<comment> \<open>a triple-quoted f-string: its lines with their indentation, then the indentation
      of the closing quotes\<close>
  "html_block ls k = [LF] @ concat (map (\<lambda>(n, l). sp n @ l @ [LF]) ls) @ sp k"

fun py_str_nat :: "nat \<Rightarrow> string" where
  "py_str_nat n = (if n < 10 then [char_of (48 + n)] else py_str_nat (n div 10) @ [char_of (48 + n mod 10)])"

definition py_str_int :: "int \<Rightarrow> string" where
  \<comment> \<open>\<open>str(i)\<close> of a Python \<open>int\<close>\<close>
  "py_str_int i = (if i < 0 then CHR ''-'' # py_str_nat (nat (- i)) else py_str_nat (nat i))"

definition feedback_text :: "(timestamp \<Rightarrow> string) \<Rightarrow> feedback \<Rightarrow> string" where
  \<comment> \<open>the string \<open>ai_feedback\<close> of lines 138--142, 163--167 and 177\<close>
  "feedback_text fmt fb =
     (case fb of
        AIFeedback t \<Rightarrow> t
      | PreviouslyReported t \<Rightarrow> ''Issue previously reported. Last alert sent: '' @ fmt t
      | NoCriticalIssues \<Rightarrow> ''No critical issues found.'')"

definition pre_open :: string where
  "pre_open = ''<pre style=\"background:#f8f8f8; padding:10px; border:1px solid #ccc;\">''"

definition render_container_issue ::
  "(timestamp \<Rightarrow> string) \<Rightarrow> string \<Rightarrow> string \<Rightarrow> string \<Rightarrow> timestamp \<Rightarrow> feedback \<Rightarrow> string" where
  \<comment> \<open>lines 144--152\<close>
  "render_container_issue fmt name reason message t fb =
     html_block
       [(12, ''<div style=\"margin-bottom:20px;\">''),
        (16, ''<strong>'' @ name @ ''</strong><br>''),
        (16, ''<em>Container Issue:</em> '' @ reason @ ''<br>''),
        (16, ''<em>Message:</em> '' @ message @ ''<br>''),
        (16, ''<em>Last alert sent:</em> '' @ fmt t @ ''<br>''),
        (16, pre_open @ feedback_text fmt fb @ ''</pre>''),
        (12, ''</div>'')] 12"

definition render_log_issue :: "(timestamp \<Rightarrow> string) \<Rightarrow> string \<Rightarrow> timestamp \<Rightarrow> string \<Rightarrow> string" where
  \<comment> \<open>lines 169--175\<close>
  "render_log_issue fmt name t trimmed_logs =
     html_block
       [(16, ''<div style=\"margin-bottom:20px;\">''),
        (20, ''<strong>'' @ name @ ''</strong><br>''),
        (20, ''<em>Last alert sent:</em> '' @ fmt t @ ''<br>''),
        (20, pre_open @ trimmed_logs @ ''</pre>''),
        (16, ''</div>'')] 16"

primrec render_diag :: "(timestamp \<Rightarrow> string) \<Rightarrow> diagnostic \<Rightarrow> string" where
  "render_diag fmt (ContainerIssue name reason message t fb) = render_container_issue fmt name reason message t fb"
| "render_diag fmt (LogIssue name t trimmed_logs) = render_log_issue fmt name t trimmed_logs"

definition render_row :: "(timestamp \<Rightarrow> string) \<Rightarrow> (status_icon \<Rightarrow> string) \<Rightarrow> pod_row \<Rightarrow> string" where
  \<comment> \<open>lines 179--186\<close>
  "render_row fmt icon r =
     html_block
       [(8, ''<tr style=\"background-color:'' @ row_color r @ '';\">''),
        (12, ''<td>'' @ row_name r @ ''</td>''),
        (12, ''<td>'' @ icon (row_icon r) @ '' '' @ row_phase r @ ''</td>''),
        (12, ''<td>'' @ py_str_int (row_restarts r) @ ''</td>''),
        (12, ''<td>'' @ feedback_text fmt (row_feedback r) @ ''</td>''),
        (8, ''</tr>'')] 8"

definition no_errors_message :: string where
  "no_errors_message = ''<p>No errors detected in any pods.</p>''"

definition render_page ::
  "(timestamp \<Rightarrow> string) \<Rightarrow> (status_icon \<Rightarrow> string) \<Rightarrow> pod_row list \<Rightarrow> diagnostic list \<Rightarrow> string" where
  \<comment> \<open>the accumulators of lines 113--114, 144, 169 and 179, and the page of lines 188--204\<close>
  "render_page fmt icon rows ds =
     (let pod_rows = concat (map (render_row fmt icon) rows);
          diagnostics = concat (map (render_diag fmt) ds) in
      html_block
        [(4, ''<div id=\"pod-status\">''),
         (8, ''<table border=\"1\" cellpadding=\"6\" cellspacing=\"0\" style=\"width:100%; border-collapse:collapse;\">''),
         (12, ''<tr style=\"background-color:#e2e3e5;\">''),
         (16, ''<th>Pod Name</th><th>Status</th><th>Restarts</th><th>AI Feedback</th>''),
         (12, ''</tr>''),
         (12, pod_rows),
         (8, ''</table>''),
         (4, ''</div>''),
         (0, ''''),
         (4, ''<hr>''),
         (0, ''''),
         (4, ''<div id=\"ai-diagnostics\">''),
         (8, ''<h2>AI Error Diagnostics</h2>''),
         (8, if diagnostics \<noteq> [] then diagnostics else no_errors_message),
         (4, ''</div>'')] 4)"

definition dashboard_page ::
  "services \<Rightarrow> (timestamp \<Rightarrow> string) \<Rightarrow> (status_icon \<Rightarrow> string) \<Rightarrow> cluster \<Rightarrow> string \<Rightarrow> string option \<Rightarrow>
   'a monitor_scheme \<Rightarrow> effect list \<times> 'a monitor_scheme \<times> (error + string)" where
  \<comment> \<open>the route \<open>dashboard_data\<close> with its return value (lines 109--204)\<close>
  "dashboard_page sv fmt icon cluster default_ns arg s =
     (case dashboard_data sv cluster default_ns arg s of
        (es, s', Inl e) \<Rightarrow> (es, s', Inl e)
      | (es, s', Inr (rows, ds)) \<Rightarrow> (es, s', Inr (render_page fmt icon rows ds)))"

subsection \<open>Lemmas\<close>

declare py_str_nat.simps [simp del]

lemma sublist_concat_member: "x \<in> set xs \<Longrightarrow> sublist x (concat xs)"
proof (induction xs)
  case (Cons y ys)
  show ?case
  proof (cases "x = y")
    case True
    then show ?thesis by (simp add: sublist_append_rightI)
  next
    case False
    with Cons have "sublist x (concat ys)" by simp
    then show ?thesis by (metis append.assoc sublist_def concat.simps(2))
  qed
qed simp

lemma sublist_html_block: "(n, l) \<in> set ls \<Longrightarrow> sublist l (html_block ls k)"
proof -
  assume "(n, l) \<in> set ls"
  then have "sp n @ l @ [LF] \<in> set (map (\<lambda>(n, l). sp n @ l @ [LF]) ls)" by force
  then have "sublist (sp n @ l @ [LF]) (concat (map (\<lambda>(n, l). sp n @ l @ [LF]) ls))"
    by (rule sublist_concat_member)
  moreover have "sublist l (sp n @ l @ [LF])" by (metis sublist_appendI)
  ultimately have "sublist l (concat (map (\<lambda>(n, l). sp n @ l @ [LF]) ls))"
    by (meson sublist_order.order_trans)
  then show ?thesis unfolding html_block_def by (metis append.assoc sublist_def)
qed

lemma render_page_diagnostics:
  "ds \<noteq> [] \<Longrightarrow> sublist (concat (map (render_diag fmt) ds)) (render_page fmt icon rows ds)"
proof -
  assume "ds \<noteq> []"
  then obtain d ds' where "ds = d # ds'" by (cases ds) auto
  moreover have "render_diag fmt d \<noteq> []"
    by (cases d) (simp_all add: html_block_def render_container_issue_def render_log_issue_def)
  ultimately have "concat (map (render_diag fmt) ds) \<noteq> []" by simp
  then show ?thesis unfolding render_page_def Let_def
    by (intro sublist_html_block [where n = 8]) simp
qed

lemma feedback_line_in_row:
  "sublist (feedback_text fmt (row_feedback r)) (render_row fmt icon r)"
proof -
  have "sublist (''<td>'' @ feedback_text fmt (row_feedback r) @ ''</td>'') (render_row fmt icon r)"
    unfolding render_row_def by (rule sublist_html_block [where n = 12]) simp
  moreover have "sublist (feedback_text fmt (row_feedback r)) (''<td>'' @ feedback_text fmt (row_feedback r) @ ''</td>'')"
    by (metis sublist_appendI)
  ultimately show ?thesis by (meson sublist_order.order_trans)
qed

subsection \<open>Properties of the page\<close>

text \<open>C30. The page shows every log excerpt verbatim: nothing is escaped, so a log
  line that holds HTML reaches the dashboard as markup.\<close>

theorem page_shows_excerpt_unescaped:
  assumes "LogIssue name t excerpt \<in> set ds"
  shows "sublist excerpt (render_page fmt icon rows ds)"
proof -
  have "sublist excerpt (pre_open @ excerpt @ ''</pre>'')" by (metis sublist_appendI)
  moreover have "sublist (pre_open @ excerpt @ ''</pre>'') (render_diag fmt (LogIssue name t excerpt))"
    by (simp only: render_diag.simps render_log_issue_def) (rule sublist_html_block [where n = 20], simp)
  moreover have "sublist (render_diag fmt (LogIssue name t excerpt)) (concat (map (render_diag fmt) ds))"
    by (rule sublist_concat_member) (use assms in \<open>simp only: set_map, rule imageI\<close>)
  moreover from assms have "sublist (concat (map (render_diag fmt) ds)) (render_page fmt icon rows ds)"
    by (intro render_page_diagnostics) auto
  ultimately show ?thesis by (meson sublist_order.order_trans)
qed

lemma page_shows_excerpt_unescaped_witness:
  "sublist ''<script>alert(1)</script>''
     (projr (snd (snd (dashboard_page example_services (\<lambda>t. ''T'') (\<lambda>i. ''*'')
        (\<lambda>ns. Some [example_pod\<lparr>pod_phase := ''Running'', pod_container_statuses := [],
                                  obs_logs := ''boot error <script>alert(1)</script>''\<rparr>])
        ''default'' None \<lparr>sent_alerts = Map.empty, clock_reads = 0\<rparr>))))"
proof -
  let ?p = "example_pod\<lparr>pod_phase := ''Running'', pod_container_statuses := [],
                           obs_logs := ''boot error <script>alert(1)</script>''\<rparr>"
  let ?r = "dashboard_data example_services (\<lambda>ns. Some [?p]) ''default'' None \<lparr>sent_alerts = Map.empty, clock_reads = 0\<rparr>"
  have ok: "\<not> isl (snd (snd ?r))" by code_simp
  have mem0: "LogIssue ''web'' 1000 ''boot error <script>alert(1)</script>'' \<in> set (snd (projr (snd (snd ?r))))"
    by code_simp
  obtain es s' x where r3: "?r = (es, s', x)" by (cases ?r) auto
  with ok obtain rows ds where x: "x = Inr (rows, ds)" by (cases x) auto
  from mem0 r3 x have mem: "LogIssue ''web'' 1000 ''boot error <script>alert(1)</script>'' \<in> set ds" by simp
  have "sublist ''boot error <script>alert(1)</script>'' (render_page (\<lambda>t. ''T'') (\<lambda>i. ''*'') rows ds)"
    using page_shows_excerpt_unescaped [OF mem] .
  moreover have "sublist ''<script>alert(1)</script>'' ''boot error <script>alert(1)</script>''"
    by (metis append_Cons append_Nil sublist_append_leftI)
  ultimately have "sublist ''<script>alert(1)</script>'' (render_page (\<lambda>t. ''T'') (\<lambda>i. ''*'') rows ds)"
    by (meson sublist_order.order_trans)
  then show ?thesis using r3 x by (simp add: dashboard_page_def)
qed

text \<open>C33. Within the suppression window the report shows when the issue was last
  alerted: a dispatch of a pod whose issue has a stored, non-zero time within the TTL
  makes no call and no mail, and its row reads \<open>Issue previously reported. Last alert
  sent: \<close> followed by that stored time, formatted.\<close>

theorem suppressed_row_shows_last_alert:
  assumes fp: "issue_fingerprint (md5 sv) (pod_name p) (classify p (obs_logs p)) = Some key"
    and t: "sent_alerts s key = Some t" "t \<noteq> 0"
    and win: "clk sv (clock_reads s) - t \<le> ALERT_TTL_SECONDS"
  shows "\<exists>row d. dispatch_pod sv p s = ([], s\<lparr>clock_reads := Suc (clock_reads s)\<rparr>, Inr (row, d)) \<and>
           row_feedback row = PreviouslyReported t \<and>
           sublist (''Issue previously reported. Last alert sent: '' @ fmt t) (render_row fmt icon row)"
proof -
  have a: "alert_or_suppress sv key (pod_name p) an s =
             ([], s\<lparr>clock_reads := Suc (clock_reads s)\<rparr>, Inr (PreviouslyReported t))" for an
    using alert_or_suppress_suppressed [OF t win] .
  have "\<exists>row d. dispatch_pod sv p s = ([], s\<lparr>clock_reads := Suc (clock_reads s)\<rparr>, Inr (row, d)) \<and>
           row_feedback row = PreviouslyReported t"
  proof (cases "classify p (obs_logs p)")
    case (Blocked r m)
    with fp a t show ?thesis by (simp add: dispatch_pod_def lookup_alert_def mk_row_def)
  next
    case (ErrorInLogs x)
    with fp a t show ?thesis by (simp add: dispatch_pod_def lookup_alert_def mk_row_def)
  next
    case Healthy
    with fp show ?thesis by simp
  qed
  then obtain row d where "dispatch_pod sv p s = ([], s\<lparr>clock_reads := Suc (clock_reads s)\<rparr>, Inr (row, d))"
    and fb: "row_feedback row = PreviouslyReported t" by blast
  moreover have "sublist (''Issue previously reported. Last alert sent: '' @ fmt t) (render_row fmt icon row)"
    using feedback_line_in_row [of fmt row icon] fb by (simp add: feedback_text_def)
  ultimately show ?thesis by blast
qed

lemma suppressed_row_shows_last_alert_witness:
  "\<exists>row d. dispatch_pod example_services example_pod
      \<lparr>sent_alerts = [issue_key ''web'' ''ImagePullBackOff'' ''rate limited'' \<mapsto> 1000], clock_reads = 1\<rparr> =
      ([], \<lparr>sent_alerts = [issue_key ''web'' ''ImagePullBackOff'' ''rate limited'' \<mapsto> 1000], clock_reads = 2\<rparr>, Inr (row, d)) \<and>
    row_feedback row = PreviouslyReported 1000 \<and>
    sublist (''Issue previously reported. Last alert sent: '' @ ''T'') (render_row (\<lambda>t. ''T'') (\<lambda>i. ''*'') row)"
proof -
  have fp: "issue_fingerprint (md5 example_services) (pod_name example_pod) (classify example_pod (obs_logs example_pod)) =
            Some (issue_key ''web'' ''ImagePullBackOff'' ''rate limited'')" by code_simp
  have w: "clk example_services (clock_reads \<lparr>sent_alerts = [issue_key ''web'' ''ImagePullBackOff'' ''rate limited'' \<mapsto> (1000::real)], clock_reads = 1\<rparr>) - 1000
           \<le> ALERT_TTL_SECONDS"
    by (simp add: example_services_def ALERT_TTL_SECONDS_def)
  from suppressed_row_shows_last_alert [OF fp _ _ w, where fmt = "\<lambda>t. ''T''" and icon = "\<lambda>i. ''*''"]
  show ?thesis by (simp add: numeral_2_eq_2)
qed

end
