(* ===== verification/Config.thy ===== *)
theory Config
  imports Render
begin

text \<open>
  Configuration (\<open>src/eks.py\<close>, lines 8--20 and 85--89). After \<open>load_dotenv()\<close> the
  process environment is a partial map from names to strings, read with
  \<open>os.getenv\<close>. It gives the default namespace (line 13), the Azure OpenAI client and
  the deployment model of every chat request (lines 16--20, 59--65 and 73--79), and
  the mail settings of \<open>send_email\<close> (lines 85--89), where \<open>int(os.getenv("SMTP_PORT",
  465))\<close> raises on a value that is not a Python integer literal. The services record
  of the dispatcher is built from these and from the network endpoints, which stay
  oracles: the chat endpoint answers a client and a request, the SMTP server a
  message and the settings.
\<close>

type_synonym environ = "string \<Rightarrow> string option"

definition getenv_default :: "environ \<Rightarrow> string \<Rightarrow> string \<Rightarrow> string" where
  \<comment> \<open>\<open>os.getenv(name, default)\<close>\<close>
  "getenv_default env name dflt = (case env name of None \<Rightarrow> dflt | Some v \<Rightarrow> v)"

definition DEFAULT_NAMESPACE :: "environ \<Rightarrow> string" where
  "DEFAULT_NAMESPACE env = getenv_default env ''KUBERNETES_NAMESPACE'' ''default''"

definition is_digit :: "char \<Rightarrow> bool" where
  "is_digit c \<longleftrightarrow> 48 \<le> (of_char c :: nat) \<and> (of_char c :: nat) < 58"

fun digits_ok :: "string \<Rightarrow> bool" where
  \<comment> \<open>decimal digits, single underscores allowed between two digits\<close>
  "digits_ok [] = False"
| "digits_ok [c] = is_digit c"
| "digits_ok (c # d # cs) = (is_digit c \<and> (if d = CHR ''_'' then digits_ok cs else digits_ok (d # cs)))"

definition read_nat :: "string \<Rightarrow> nat" where
  \<comment> \<open>the value of a string of decimal digits\<close>
  "read_nat s = foldl (\<lambda>acc c. 10 * acc + (of_char c - 48)) 0 s"

definition py_int :: "string \<Rightarrow> int option" where
  \<comment> \<open>\<open>int(s)\<close> of a string: surrounding white space, an optional sign, then the
      digits; \<open>None\<close> is the \<open>ValueError\<close> it raises otherwise\<close>
  "py_int s =
     (case py_strip s of
        [] \<Rightarrow> None
      | c # r \<Rightarrow>
          (let (sign, body) = (if c = CHR ''-'' then (-1, r) else if c = CHR ''+'' then (1, r) else (1, c # r)) in
           if digits_ok body then Some (sign * int (read_nat (filter (\<lambda>x. x \<noteq> CHR ''_'') body))) else None))"

record azure_client =
  api_key :: "string option"
  api_version :: "string option"
  azure_endpoint :: "string option"

definition client_of_env :: "environ \<Rightarrow> azure_client" where
  \<comment> \<open>lines 16--20\<close>
  "client_of_env env =
     \<lparr>api_key = env ''AZURE_API_KEY'', api_version = env ''AZURE_API_VERSION'', azure_endpoint = env ''AZURE_API_BASE''\<rparr>"

type_synonym chat_request = "string option \<times> (string \<times> string) list"

definition chat_request :: "environ \<Rightarrow> string \<Rightarrow> chat_request" where
  \<comment> \<open>lines 59--65 and 73--79: the model and the system and user messages\<close>
  "chat_request env context =
     (env ''AZURE_DEPLOYMENT_MODEL'',
      [(''system'', ''You'' @ [CHR 0x27] @ ''re a Kubernetes troubleshooting assistant.''), (''user'', context)])"

record mail_settings =
  mail_from :: "string option"
  mail_to :: "string option"
  mail_host :: string
  mail_port :: int
  mail_password :: "string option"

definition mail_settings_of :: "environ \<Rightarrow> mail_settings option" where
  \<comment> \<open>lines 85--89 and 92; \<open>None\<close> when \<open>int()\<close> of \<open>SMTP_PORT\<close> raises\<close>
  "mail_settings_of env =
     (case (case env ''SMTP_PORT'' of None \<Rightarrow> Some 465 | Some v \<Rightarrow> py_int v) of
        None \<Rightarrow> None
      | Some port \<Rightarrow>
          Some \<lparr>mail_from = env ''EMAIL_SENDER'', mail_to = env ''EMAIL_RECEIVER'',
                mail_host = getenv_default env ''SMTP_HOST'' ''smtp.gmail.com'', mail_port = port,
                mail_password = env ''EMAIL_PASSWORD''\<rparr>)"

definition services_of_env ::
  "environ \<Rightarrow> clock \<Rightarrow> digest \<Rightarrow> (azure_client \<Rightarrow> nat \<Rightarrow> chat_request \<Rightarrow> string option) \<Rightarrow>
   (mail_settings \<Rightarrow> nat \<Rightarrow> string \<Rightarrow> string \<Rightarrow> bool) \<Rightarrow> services" where
  \<comment> \<open>the chat call of lines 59--66 and 73--80 and the mail of lines 82--93, over the endpoints\<close>
  "services_of_env env ck h chat server =
     \<lparr>clk = ck, md5 = h,
      ai = (\<lambda>n context. chat (client_of_env env) n (chat_request env context)),
      smtp = (\<lambda>n subject body. case mail_settings_of env of None \<Rightarrow> False | Some ms \<Rightarrow> server ms n subject body)\<rparr>"

subsection \<open>Properties of the configuration\<close>

text \<open>C32. An \<open>SMTP_PORT\<close> that is not an integer literal makes every mail raise, so no
  alert is ever recorded: a scan leaves \<open>sent_alerts\<close> as it was, and it reports only
  when every issue it meets was already recorded; any new issue fails the request,
  on every scan.\<close>

theorem invalid_smtp_port_never_records:
  assumes "mail_settings_of env = None"
  shows "sent_alerts (fst (snd (scan_pods (services_of_env env ck h chat server) ps s))) = sent_alerts s \<and>
         (\<not> isl (snd (snd (scan_pods (services_of_env env ck h chat server) ps s))) \<longrightarrow>
            (\<forall>p \<in> set ps. \<forall>key. issue_fingerprint h (pod_name p) (classify p (obs_logs p)) = Some key \<longrightarrow>
               key \<in> dom (sent_alerts s)))"
proof -
  let ?sv = "services_of_env env ck h chat server"
  have no: "\<forall>n a b. \<not> smtp ?sv n a b" using assms by (simp add: services_of_env_def)
  have tbl: "sent_alerts (fst (snd (scan_pods ?sv ps s))) = sent_alerts s"
  proof (rule scan_pods_preserves [where P = "\<lambda>s'. sent_alerts s' = sent_alerts s"])
    fix s' p
    assume "sent_alerts s' = sent_alerts s"
    then show "sent_alerts (fst (snd (dispatch_pod ?sv p s'))) = sent_alerts s"
      using dispatch_pod_no_smtp [OF no, of p s'] by simp
  qed simp
  have "\<forall>p \<in> set ps. \<forall>key. issue_fingerprint h (pod_name p) (classify p (obs_logs p)) = Some key \<longrightarrow>
          key \<in> dom (sent_alerts s)"
    if ok: "\<not> isl (snd (snd (scan_pods ?sv ps s)))"
  proof (intro ballI allI impI)
    fix p key
    assume p: "p \<in> set ps" and fp: "issue_fingerprint h (pod_name p) (classify p (obs_logs p)) = Some key"
    from ok obtain r where run: "scan_pods ?sv ps s = (fst (scan_pods ?sv ps s), fst (snd (scan_pods ?sv ps s)), Inr r)"
      by (cases "snd (snd (scan_pods ?sv ps s))") (simp_all add: prod_eq_iff)
    have "md5 ?sv = h" by (simp add: services_of_env_def)
    with fp have "issue_fingerprint (md5 ?sv) (pod_name p) (classify p (obs_logs p)) = Some key" by simp
    from scan_pods_keys_recorded [OF run p this] tbl show "key \<in> dom (sent_alerts s)" by simp
  qed
  with tbl show ?thesis by blast
qed

lemma invalid_smtp_port_never_records_witness:
  "sent_alerts (fst (snd (scan_pods
      (services_of_env (\<lambda>k. if k = ''SMTP_PORT'' then Some ''smtps'' else None) (\<lambda>n. 1000 + 10 * real n)
         (\<lambda>s. replicate 32 (CHR ''0'')) (\<lambda>c n r. Some ''Check the registry quota.'') (\<lambda>ms n a b. True))
      [example_pod] \<lparr>sent_alerts = Map.empty, clock_reads = 0\<rparr>))) =
   sent_alerts \<lparr>sent_alerts = Map.empty, clock_reads = 0\<rparr>"
proof -
  have bad: "mail_settings_of (\<lambda>k. if k = ''SMTP_PORT'' then Some ''smtps'' else None) = None" by code_simp
  show ?thesis by (rule conjunct1 [OF invalid_smtp_port_never_records [OF bad]])
qed

end
