(* ===== verification/Spec2Isabelle.thy ===== *)
theory Spec2Isabelle
  imports Concurrency Config
begin

text \<open>
  \<^bold>\<open>The EKS monitor of \<open>src/eks.py\<close>.\<close>
  The program is a Flask server. Its route \<open>dashboard_data\<close> lists the pods of a
  namespace with \<open>kubectl\<close>, classifies each pod, and for a pod with an issue derives
  an issue key, consults the global suppression table \<open>sent_alerts\<close>, and, when the
  issue was not alerted in the last hour, asks Azure OpenAI for a diagnosis, mails
  it, and stores the time of the alert. The route \<open>health\<close> counts namespaces and pods.
  Data flows one way, pod status to verdict to key to suppression decision to
  effects to report rows; the only state that survives a request is \<open>sent_alerts\<close>.

  \<^bold>\<open>Theories and the code they model.\<close>
  \<^item> \<open>Prelude\<close>: the Python string and list primitives the code calls
    (\<open>str.lower\<close> as \<^const>\<open>py_lower\<close>, \<open>in\<close> as \<^const>\<open>py_in\<close>, the newline join as
    \<^const>\<open>py_join\<close>, \<open>xs[-n:]\<close> as \<^const>\<open>py_tail\<close>, \<open>str.strip\<close> as \<^const>\<open>py_strip\<close>,
    \<open>dict.get\<close> as \<^const>\<open>py_dict_get\<close>) and the generic lemmas on them, with the
    collection \<open>py_simps\<close> that evaluates character arithmetic.
  \<^item> \<open>LogExcerpt\<close>: \<open>extract_relevant_logs\<close> (lines 42--45) and the whole-log test
    of line 155. \<open>str.splitlines\<close> is \<^const>\<open>splitlines\<close>, with every line
    boundary Python knows below code point 256 and CRLF as one boundary.
  \<^item> \<open>Suppression\<close>: \<open>sent_alerts\<close> (line 10), \<open>ALERT_TTL_SECONDS\<close> (line 14),
    \<open>should_send_alert\<close> (lines 95--99), the store of lines 140 and 165 as
    \<^const>\<open>record_alert\<close> and the lookups of lines 142 and 167 as
    \<^const>\<open>lookup_alert\<close>. The state is the record \<^typ>\<open>monitor\<close>: the table and
    the number of \<open>time.time()\<close> calls made so far; the clock is a function from that
    number to a timestamp, so every reading of the clock is a distinct, arbitrary value.
  \<^item> \<open>Classifier\<close>: the pod fields read in lines 117--130 (\<^typ>\<open>pod\<close>,
    \<^typ>\<open>container_status\<close>), the first waiting container (\<^const>\<open>first_waiting\<close>)
    and the branch tests of lines 132 and 155 (\<^const>\<open>classify\<close>).
  \<^item> \<open>Fingerprint\<close>: the blocked-pod key of line 135 (\<^const>\<open>issue_key\<close>) and the
    log digest of \<open>hash_logs\<close> (lines 47--48), the MD5 function being a parameter.
  \<^item> \<open>Dispatcher\<close>: \<open>analyze_logs\<close>, \<open>analyze_container_issue\<close>, \<open>send_email\<close>
    (lines 50--93) and the body of the pod loop (lines 117--186) as
    \<^const>\<open>dispatch_pod\<close>. The external services are the record \<^typ>\<open>services\<close>:
    the clock, the digest, and the AI and SMTP endpoints as functions of the call's
    position in time (the clock count) and its arguments, \<open>None\<close> or \<open>False\<close> being
    the exception they raise. A dispatch returns the list of its effects (AI calls
    and mails, in order), the new state and either an \<^typ>\<open>error\<close> (the exception
    that leaves the handler) or the row and diagnostic of the report. Both issue
    branches share \<^const>\<open>alert_or_suppress\<close>: lines 137--142 and 162--167.
  \<^item> \<open>Scan\<close>: the loop of \<open>dashboard_data\<close> over the pods (\<^const>\<open>scan_pods\<close>), the
    namespace selection of line 111, \<open>get_pods\<close> (lines 27--32) over a cluster that
    may refuse the listing, \<open>get_namespaces\<close> (lines 22--25), whose failure raises,
    and \<open>health\<close> (lines 206--213), which catches it.
  \<^item> \<open>Render\<close>: the HTML \<open>dashboard_data\<close> returns, character for character: the
    diagnostic blocks (lines 144--152 and 169--175), the table rows (179--186) and the
    page (188--204), each triple-quoted f-string as \<^const>\<open>html_block\<close>, \<open>str(int)\<close>
    as \<^const>\<open>py_str_int\<close>, and the whole route as \<^const>\<open>dashboard_page\<close>.
    \<open>time.strftime\<close> of the local time and the emoji icons are parameters.
  \<^item> \<open>Config\<close>: the environment after \<open>load_dotenv()\<close> (line 8) as a partial map:
    \<open>DEFAULT_NAMESPACE\<close> (line 13), the Azure client (lines 16--20) and the chat request
    of every analysis (lines 59--65, 73--79), the mail settings of \<open>send_email\<close>
    (lines 83--89) with \<open>int()\<close> as \<^const>\<open>py_int\<close>, and \<^const>\<open>services_of_env\<close>, the
    services record of the dispatcher built from them over the chat and SMTP endpoints.
  \<^item> \<open>Concurrency\<close>: the threaded server of line 217, as an inductive step relation
    \<^const>\<open>conc_step\<close> whose threads each run the check, mail and store steps of one
    issue on the shared table, or fail at the analysis or mail (the exception that
    skips the store), and its reachable states \<^const>\<open>conc_reach\<close> from the cleared
    table of line 216 with a finite number of requests.

  \<^bold>\<open>What the lemmas show.\<close>
  Suppression: the TTL window after a store, with its end closed, and the refinement
  of the dictionary-and-clock code by the contract (no entry, or one older than the
  TTL). Log excerpt: the excerpt split again gives back the kept lines, which are the
  last \<open>min 100 k\<close> matching lines in order, the whole-log test agrees with the line
  filter, and lines without an error signal, or errors older than the last 100, never
  change the excerpt. Classifier and fingerprints: which pods are blocked, restart
  counts never matter, the blocked key determines its parts when the reason has no
  colon and is ambiguous whenever it has one, and blocked and log keys never collide.
  Dispatcher and scan: idempotence within the TTL for one pod and for a whole scan,
  failures not recorded and so retried, a stored \<open>0.0\<close> never suppressing, the
  report's lookups never raising, the order AI call, mail, store, a blocked pod's
  dispatch independent of its logs, the rows in pod order and each of one of the
  three row kinds, one diagnostic per unhealthy pod, and a failing \<open>kubectl\<close> giving
  an empty report. Rendering: every log excerpt appears in the page verbatim, and
  within the window a row shows the stored time of the last alert. Configuration: a
  malformed \<open>SMTP_PORT\<close> means no alert is ever recorded. Concurrency: the table
  invariant in every interleaving, the reachable double mail, and that a run stops
  only when every request has finished or failed, each finished request leaving its
  issue in the table. Across components (this theory): a namespace of healthy pods
  costs no AI call or mail and shows the no-errors message.

  \<^bold>\<open>Divergences the development proves.\<close> The window test is \<open>now - t > 3600\<close>,
  so an entry still suppresses at exactly one hour; a stored \<open>0.0\<close> reads as never
  alerted; a pod in phase Unknown is alerted as blocked; the blocked key is
  ambiguous when the reason holds a colon; one pod's failing AI or mail call aborts
  the whole scan; with no lock on \<open>sent_alerts\<close>, two concurrent requests mail
  one new issue twice; and a failing \<open>kubectl\<close> makes \<open>get_namespaces\<close> raise
  instead of degrading to an empty result; and nothing inserted into the page is
  HTML-escaped, so log text reaches the dashboard as markup; a malformed
  \<open>SMTP_PORT\<close> is a permanent mail failure that, with the scan abort, fails every
  dashboard request that meets a new issue. The mail session
  \<open>smtplib.SMTP_SSL\<close> (line 91) is opened with no timeout, and the OpenAI client
  (lines 16--20) sets none, where the specification asks for bounded ones; the model has no notion of time spent in a call, so a call that
  hangs is outside it (a request of the concurrency model that never takes its next
  step).

  \<^bold>\<open>Bounds and fuel.\<close> Every loop of the code runs over a finite list (lines,
  containers, pods, namespaces), so every function is structurally recursive and
  total; no fuel is needed. The interleaving relation is not a function; what is
  proved of it holds in every reachable state. The TTL is the code's constant 3600. Timestamps are
  reals: float rounding of \<open>time.time()\<close> and of the subtraction is not modelled.

  \<^bold>\<open>Not modelled.\<close> The \<open>kubectl\<close> subprocesses, the HTTP call of the OpenAI
  client and the \<open>smtplib\<close> session beyond their success or failure and their
  results (oracles of the model, their inputs modelled);
  \<open>time.strftime\<close> and the icons in the page (parameters of the rendering); the route
  \<open>index\<close> (a file read) and the JSON dump of \<open>list_namespaces\<close>
  (its failure is that of \<^const>\<open>get_namespaces\<close>); the parsing of the
  \<open>.env\<close> file by \<open>load_dotenv\<close> (its result is the environment); the unused
  \<open>feedback_cache\<close>; \<open>int()\<close> on digits outside Latin-1; characters above code point 255; JSON objects with
  duplicate keys.
\<close>

section \<open>Properties across components\<close>

text \<open>C31. A namespace whose pods are all healthy: the route makes no AI call, sends no
  mail, leaves \<open>sent_alerts\<close> as it was, and its page says
  \<open>No errors detected in any pods.\<close>\<close>

theorem healthy_namespace_page:
  assumes "\<forall>p \<in> set (get_pods cluster (select_namespace arg default_ns)). classify p (obs_logs p) = Healthy"
  shows "\<exists>page. dashboard_page sv fmt icon cluster default_ns arg s = ([], s, Inr page) \<and>
                sublist no_errors_message page"
proof -
  let ?rows = "map (\<lambda>p. mk_row p ''#d4edda'' CheckMark NoCriticalIssues) (get_pods cluster (select_namespace arg default_ns))"
  have "dashboard_page sv fmt icon cluster default_ns arg s = ([], s, Inr (render_page fmt icon ?rows []))"
    using scan_pods_all_healthy [OF assms, of sv s] by (simp add: dashboard_page_def dashboard_data_def)
  moreover have "sublist no_errors_message (render_page fmt icon ?rows [])"
    unfolding render_page_def Let_def by (rule sublist_html_block [where n = 8]) simp
  ultimately show ?thesis by blast
qed

lemma healthy_namespace_page_witness:
  "\<exists>page. dashboard_page example_services (\<lambda>t. ''T'') (\<lambda>i. ''*'')
      (\<lambda>ns. Some [example_pod\<lparr>pod_phase := ''Running'', pod_container_statuses := [], obs_logs := ''all good''\<rparr>])
      ''default'' None \<lparr>sent_alerts = Map.empty, clock_reads = 0\<rparr> =
      ([], \<lparr>sent_alerts = Map.empty, clock_reads = 0\<rparr>, Inr page) \<and> sublist no_errors_message page"
proof -
  have h: "\<forall>p \<in> set (get_pods (\<lambda>ns. Some [example_pod\<lparr>pod_phase := ''Running'', pod_container_statuses := [], obs_logs := ''all good''\<rparr>])
      (select_namespace None ''default'')). classify p (obs_logs p) = Healthy" by code_simp
  from healthy_namespace_page [OF h] show ?thesis .
qed

end
